theory Spec2Isabelle
  imports Main "HOL-Library.Sublist"
begin

section \<open>The GRPC client service of lib/grpc/clientservice/service.go\<close>

text \<open>
  The file bridges one bidirectional GRPC stream to a client session: \<open>Communicate\<close>
  starts a goroutine that reads commands and hands them to the client, and itself ranges
  over a buffered channel of replies, writing each to the stream. \<open>grpcTransport\<close> is
  what the client gets to reach the stream: \<open>Send\<close> puts a reply on the channel without
  waiting, \<open>Close\<close> sets the trailer and closes the channel.

  The embedding keeps the source's names. Go values become HOL values, every mutation is
  an explicit new state, a runtime panic is an outcome of its own, and the two goroutines
  are interleaved by an explicit schedule.
\<close>

subsection \<open>Errors and outcomes\<close>

text \<open>
  A Go \<open>error\<close> value. \<open>io.EOF\<close> is the one error the source compares by identity; every
  other error (\<open>fmt.Errorf\<close>, the errors of \<open>json.Marshal\<close> and of the stream) is known
  by its message.
\<close>

datatype error = io_EOF | Error string

text \<open>A call either returns or panics (with the message of the Go runtime).\<close>

datatype 'a outcome = Returns 'a | Panics string

subsection \<open>Buffered channels\<close>

text \<open>
  \<open>make(chan *proto.Reply, n)\<close>: the queued values in order of arrival, the capacity,
  and whether \<open>close\<close> was called.
\<close>

record 'a chan =
  buf :: "'a list"
  cap :: nat
  chan_closed :: bool

definition make_chan :: "nat \<Rightarrow> 'a chan" where
  "make_chan n = \<lparr>buf = [], cap = n, chan_closed = False\<rparr>"

text \<open>
  The send case of a \<open>select\<close> with a \<open>default\<close>: a send on a closed channel panics
  (also inside a select); otherwise the value is queued when the buffer has room, and
  the select takes its default when it has none.
\<close>

datatype 'a trysend = Sent "'a chan" | NotReady | SendPanics

definition chan_trysend :: "'a chan \<Rightarrow> 'a \<Rightarrow> 'a trysend" where
  "chan_trysend ch v =
     (if chan_closed ch then SendPanics
      else if length (buf ch) < cap ch then Sent (ch\<lparr>buf := buf ch @ [v]\<rparr>)
      else NotReady)"

text \<open>\<open>close(ch)\<close>: closing a closed channel panics (\<open>None\<close>).\<close>

definition chan_close :: "'a chan \<Rightarrow> 'a chan option" where
  "chan_close ch = (if chan_closed ch then None else Some (ch\<lparr>chan_closed := True\<rparr>))"

text \<open>
  One receive of \<open>for reply := range ch\<close>: the oldest queued value when there is one
  (also after the close), the end of the loop when the channel is closed and empty, and
  otherwise the receiver waits.
\<close>

datatype 'a recv = Got 'a "'a chan" | Drained | Waits

definition chan_recv :: "'a chan \<Rightarrow> 'a recv" where
  "chan_recv ch =
     (case buf ch of
        v # vs \<Rightarrow> Got v (ch\<lparr>buf := vs\<rparr>)
      | [] \<Rightarrow> if chan_closed ch then Drained else Waits)"

subsection \<open>The stream\<close>

text \<open>
  \<open>proto.Centrifugo_CommunicateServer\<close> is the GRPC side of the session. The model
  holds what its calls observe: the results its future \<open>Recv\<close> calls return (a command or
  an error), the replies \<open>Send\<close> has written, the writes it refused, and the metadata of
  every \<open>SetTrailer\<close> call.
\<close>

type_synonym MD = "(string \<times> string list) list"

definition metadata_Pairs :: "string \<Rightarrow> string \<Rightarrow> MD" where
  "metadata_Pairs k v = [(k, [v])]"

record ('c, 'r) Centrifugo_CommunicateServer =
  incoming :: "(error + 'c) list"
  sent :: "'r list"
  failed :: "('r \<times> error) list"
  trailers :: "MD list"

text \<open>\<open>stream.Recv()\<close>: waits (\<open>None\<close>) while the client has sent nothing more.\<close>

definition stream_Recv ::
  "('c, 'r) Centrifugo_CommunicateServer \<Rightarrow>
     ((error + 'c) \<times> ('c, 'r) Centrifugo_CommunicateServer) option" where
  "stream_Recv st =
     (case incoming st of
        [] \<Rightarrow> None
      | x # xs \<Rightarrow> Some (x, st\<lparr>incoming := xs\<rparr>))"

text \<open>
  \<open>stream.Send(reply)\<close>: whether the network takes the write is not the program's to
  decide, so it is a parameter \<open>wr\<close>, asked with the replies written so far.
\<close>

definition stream_Send ::
  "('r list \<Rightarrow> 'r \<Rightarrow> error option) \<Rightarrow> ('c, 'r) Centrifugo_CommunicateServer \<Rightarrow> 'r \<Rightarrow>
     error option \<times> ('c, 'r) Centrifugo_CommunicateServer" where
  "stream_Send wr st reply =
     (case wr (sent st) reply of
        None \<Rightarrow> (None, st\<lparr>sent := sent st @ [reply]\<rparr>)
      | Some err \<Rightarrow> (Some err, st\<lparr>failed := failed st @ [(reply, err)]\<rparr>))"

definition SetTrailer ::
  "('c, 'r) Centrifugo_CommunicateServer \<Rightarrow> MD \<Rightarrow> ('c, 'r) Centrifugo_CommunicateServer" where
  "SetTrailer st md = st\<lparr>trailers := trailers st @ [md]\<rparr>"

subsection \<open>grpcTransport\<close>

text \<open>
  The mutex \<open>mu\<close> has no field: \<open>Close\<close> holds it from its first statement to its return
  and nothing else takes it, so a call of \<open>Close\<close> is one atomic step of the model.
\<close>

record ('c, 'r) grpcTransport =
  closed :: bool
  stream :: "('c, 'r) Centrifugo_CommunicateServer"
  replies :: "'r chan"

definition newGRPCTransport ::
  "('c, 'r) Centrifugo_CommunicateServer \<Rightarrow> 'r chan \<Rightarrow> ('c, 'r) grpcTransport" where
  "newGRPCTransport st ch = \<lparr>closed = False, stream = st, replies = ch\<rparr>"

definition replyBufferSize :: nat where
  "replyBufferSize = 64"

datatype Encoding = EncodingProtobuf

record 'r PreparedReply =
  Reply :: 'r
  Enc :: Encoding

definition Name :: "('c, 'r) grpcTransport \<Rightarrow> string" where
  "Name t = ''grpc''"

definition Encoding :: "('c, 'r) grpcTransport \<Rightarrow> Encoding" where
  "Encoding t = EncodingProtobuf"

definition Send ::
  "('c, 'r) grpcTransport \<Rightarrow> 'r PreparedReply \<Rightarrow> error option outcome \<times> ('c, 'r) grpcTransport" where
  "Send t reply =
     (case chan_trysend (replies t) (Reply reply) of
        Sent ch \<Rightarrow> (Returns None, t\<lparr>replies := ch\<rparr>)
      | NotReady \<Rightarrow>
          (Returns (Some (Error ''error sending to transport: buffer channel is full'')), t)
      | SendPanics \<Rightarrow> (Panics ''send on closed channel'', t))"

text \<open>
  \<open>Close\<close>. \<open>json.Marshal\<close> of the disconnect is a parameter (\<open>proto.Disconnect\<close> and
  its encoding are outside this file): \<open>Inl\<close> is its error, \<open>Inr\<close> the JSON text.
\<close>

definition Close ::
  "('d \<Rightarrow> error + string) \<Rightarrow> ('c, 'r) grpcTransport \<Rightarrow> 'd \<Rightarrow>
     error option outcome \<times> ('c, 'r) grpcTransport" where
  "Close marshal t disconnect =
     (if closed t then (Returns None, t)
      else
        (let t1 = t\<lparr>closed := True\<rparr> in
         (case marshal disconnect of
            Inl err \<Rightarrow> (Returns (Some err), t1)
          | Inr disconnectJSON \<Rightarrow>
              (let t2 = t1\<lparr>stream :=
                          SetTrailer (stream t1) (metadata_Pairs ''disconnect'' disconnectJSON)\<rparr> in
               (case chan_close (replies t2) of
                  None \<Rightarrow> (Panics ''close of closed channel'', t2)
                | Some ch \<Rightarrow> (Returns None, (t2\<lparr>replies := ch\<rparr>)))))))"

text \<open>
  Several calls of \<open>Close\<close> on one transport, from any goroutines: the mutex lets them
  in one at a time, so they run as a list, in the order in which they got the lock.
  The result is what each call returned, and the transport after the last.
\<close>

primrec Close_calls ::
  "('d \<Rightarrow> error + string) \<Rightarrow> ('c, 'r) grpcTransport \<Rightarrow> 'd list \<Rightarrow>
     error option outcome list \<times> ('c, 'r) grpcTransport" where
  "Close_calls marshal t [] = ([], t)"
| "Close_calls marshal t (d # ds) =
     (case Close marshal t d of
        (r, t') \<Rightarrow> (case Close_calls marshal t' ds of (rs, t'') \<Rightarrow> (r # rs, t'')))"

subsection \<open>The collaborators of Communicate\<close>

text \<open>
  \<open>proto.Disconnect\<close>, with the two fields the source sets and reads.
\<close>

record Disconnect =
  Reason :: string
  Reconnect :: bool

text \<open>
  What \<open>Communicate\<close> takes from outside this file, as parameters: \<open>json.Marshal\<close> on a
  disconnect, the client's \<open>Handle\<close> (a function of the client's state and the command,
  giving the reply and the disconnect, each possibly nil, and the client's next state),
  the network's answer to a write, and the value of \<open>proto.DisconnectNormal\<close>. The
  logger is left out: its calls change nothing the program reads.
\<close>

record ('c, 'r, 's) env =
  json_Marshal :: "Disconnect \<Rightarrow> error + string"
  client_Handle :: "'s \<Rightarrow> 'c \<Rightarrow> ('r option \<times> Disconnect option) \<times> 's"
  network_write :: "'r list \<Rightarrow> 'r \<Rightarrow> error option"
  DisconnectNormal :: Disconnect

text \<open>
  Modelled from the spec: \<open>proto.NewPreparedReply\<close> (package proto is not among the
  sources) is the framing step that selects the wire encoding for this transport; the
  reply it frames is the one \<open>Send\<close> queues.
\<close>

definition NewPreparedReply :: "'r \<Rightarrow> Encoding \<Rightarrow> 'r PreparedReply" where
  "NewPreparedReply rep enc = \<lparr>Reply = rep, Enc = enc\<rparr>"

subsection \<open>The session\<close>

text \<open>
  The goroutine started by \<open>Communicate\<close> is either at the top of its loop, or has chosen
  a disconnect and is about to call \<open>c.Close\<close> with it, or has returned. The body of
  \<open>Communicate\<close> is either in its \<open>range\<close> loop, or has left it with a result and is about
  to run its deferred \<open>c.Close\<close>, or has returned that result.
\<close>

datatype inbound_pc = Receiving | Closing Disconnect | Exited

datatype outbound_pc = Ranging | Returning "error option" | Returned "error option"

text \<open>
  The state of one call of \<open>Communicate\<close>: the transport (with the stream and the
  channel), the client's state, where the two goroutines stand, whether the process has
  panicked, and two histories that the program does not hold but the properties speak
  of: the arguments of every call of \<open>c.Close\<close>, and the replies \<open>transport.Send\<close> took.
\<close>

record ('c, 'r, 's) session =
  transport :: "('c, 'r) grpcTransport"
  client :: 's
  inbound :: inbound_pc
  outbound :: outbound_pc
  panicked :: bool
  close_calls :: "Disconnect list"
  accepted :: "'r list"

text \<open>
  Modelled from the spec: the client's \<open>Close\<close> (package client is not among the
  sources) terminates the session through the transport's \<open>Close\<close> with the disconnect
  it is given, is idempotent (as that \<open>Close\<close> is), and returns nothing. The call is
  added to the history of calls.
\<close>

definition client_Close ::
  "('c, 'r, 's) env \<Rightarrow> ('c, 'r, 's) session \<Rightarrow> Disconnect \<Rightarrow> ('c, 'r, 's) session" where
  "client_Close E s d =
     (case Close (json_Marshal E) (transport s) d of
        (Returns err, t') \<Rightarrow> s\<lparr>transport := t', close_calls := close_calls s @ [d]\<rparr>
      | (Panics msg, t') \<Rightarrow>
          s\<lparr>transport := t', close_calls := close_calls s @ [d], panicked := True\<rparr>)"

text \<open>
  Lines 69 to 75: a reply is framed and handed to \<open>transport.Send\<close>. When \<open>Send\<close>
  returns an error the goroutine has its disconnect; when \<open>Send\<close> panics, the process
  does.
\<close>

definition send_reply :: "('c, 'r, 's) session \<Rightarrow> 'r \<Rightarrow> ('c, 'r, 's) session" where
  "send_reply s rep =
     (case Send (transport s) (NewPreparedReply rep EncodingProtobuf) of
        (Returns None, t') \<Rightarrow> s\<lparr>transport := t', accepted := accepted s @ [rep]\<rparr>
      | (Returns (Some err), t') \<Rightarrow>
          s\<lparr>transport := t',
            inbound := Closing \<lparr>Reason = ''error sending message'', Reconnect = True\<rparr>\<rparr>
      | (Panics msg, t') \<Rightarrow> s\<lparr>panicked := True\<rparr>)"

text \<open>Lines 63 to 75: the command goes to the client; a disconnect comes before a reply.\<close>

definition handle_command ::
  "('c, 'r, 's) env \<Rightarrow> ('c, 'r, 's) session \<Rightarrow> 'c \<Rightarrow> ('c, 'r, 's) session" where
  "handle_command E s cmd =
     (case client_Handle E (client s) cmd of
        ((rep, disconnect), c') \<Rightarrow>
          (case disconnect of
             Some d \<Rightarrow> s\<lparr>client := c', inbound := Closing d\<rparr>
           | None \<Rightarrow>
               (case rep of
                  None \<Rightarrow> s\<lparr>client := c'\<rparr>
                | Some r \<Rightarrow> send_reply (s\<lparr>client := c'\<rparr>) r)))"

text \<open>
  One turn of the goroutine (lines 52 to 77). At the top of the loop: \<open>Recv\<close>, then
  \<open>Handle\<close>, then \<open>Send\<close>, up to the point where the loop either starts again or has
  a disconnect to close with. The call of \<open>c.Close\<close> is a turn of its own, since the other
  goroutine can run between the \<open>Send\<close> that failed and the \<open>Close\<close> that follows it.
\<close>

definition inbound_step ::
  "('c, 'r, 's) env \<Rightarrow> ('c, 'r, 's) session \<Rightarrow> ('c, 'r, 's) session" where
  "inbound_step E s =
     (case inbound s of
        Receiving \<Rightarrow>
          (case stream_Recv (stream (transport s)) of
             None \<Rightarrow> s
           | Some (res, st') \<Rightarrow>
               (case res of
                  Inl err \<Rightarrow>
                    (if err = io_EOF
                     then s\<lparr>transport := (transport s)\<lparr>stream := st'\<rparr>,
                            inbound := Closing (DisconnectNormal E)\<rparr>
                     else s\<lparr>transport := (transport s)\<lparr>stream := st'\<rparr>,
                            inbound := Closing (DisconnectNormal E)\<rparr>)
                | Inr cmd \<Rightarrow>
                    handle_command E (s\<lparr>transport := (transport s)\<lparr>stream := st'\<rparr>\<rparr>) cmd))
      | Closing d \<Rightarrow> (client_Close E s d)\<lparr>inbound := Exited\<rparr>
      | Exited \<Rightarrow> s)"

text \<open>
  One turn of the body of \<open>Communicate\<close> (lines 79 to 85, and the deferred call of line
  45). In the loop: one receive from the channel and the write of what it got. After the
  loop: the deferred \<open>c.Close(proto.DisconnectNormal)\<close>, then the return.
\<close>

definition outbound_step ::
  "('c, 'r, 's) env \<Rightarrow> ('c, 'r, 's) session \<Rightarrow> ('c, 'r, 's) session" where
  "outbound_step E s =
     (case outbound s of
        Ranging \<Rightarrow>
          (case chan_recv (replies (transport s)) of
             Waits \<Rightarrow> s
           | Drained \<Rightarrow> s\<lparr>outbound := Returning None\<rparr>
           | Got reply ch \<Rightarrow>
               (case stream_Send (network_write E) (stream (transport s)) reply of
                  (None, st') \<Rightarrow>
                    s\<lparr>transport := (transport s)\<lparr>replies := ch, stream := st'\<rparr>\<rparr>
                | (Some err, st') \<Rightarrow>
                    s\<lparr>transport := (transport s)\<lparr>replies := ch, stream := st'\<rparr>,
                      outbound := Returning (Some err)\<rparr>))
      | Returning r \<Rightarrow> (client_Close E s (DisconnectNormal E))\<lparr>outbound := Returned r\<rparr>
      | Returned r \<Rightarrow> s)"

text \<open>
  A schedule says which goroutine takes the next turn. A goroutine that waits (on
  \<open>Recv\<close>, on the channel) or has returned leaves the state as it is; after a panic the
  process is gone and nothing moves.
\<close>

datatype thread = Inbound | Outbound

definition step ::
  "('c, 'r, 's) env \<Rightarrow> thread \<Rightarrow> ('c, 'r, 's) session \<Rightarrow> ('c, 'r, 's) session" where
  "step E th s =
     (if panicked s then s
      else (case th of Inbound \<Rightarrow> inbound_step E s | Outbound \<Rightarrow> outbound_step E s))"

primrec run ::
  "('c, 'r, 's) env \<Rightarrow> thread list \<Rightarrow> ('c, 'r, 's) session \<Rightarrow> ('c, 'r, 's) session" where
  "run E [] s = s"
| "run E (th # sched) s = run E sched (step E th s)"

text \<open>
  \<open>Communicate\<close>, lines 41 to 45: the channel, the transport and the client. What
  follows is every schedule of the two goroutines from this state.
\<close>

definition Communicate_start ::
  "('c, 'r) Centrifugo_CommunicateServer \<Rightarrow> 's \<Rightarrow> ('c, 'r, 's) session" where
  "Communicate_start st c0 =
     \<lparr>transport = newGRPCTransport st (make_chan replyBufferSize),
      client = c0, inbound = Receiving, outbound = Ranging, panicked = False,
      close_calls = [], accepted = []\<rparr>"

definition Communicate ::
  "('c, 'r, 's) env \<Rightarrow> ('c, 'r) Centrifugo_CommunicateServer \<Rightarrow> 's \<Rightarrow> thread list \<Rightarrow>
     ('c, 'r, 's) session" where
  "Communicate E st c0 sched = run E sched (Communicate_start st c0)"

text \<open>A stream on which nothing has happened yet, with the client's future messages.\<close>

definition new_stream :: "(error + 'c) list \<Rightarrow> ('c, 'r) Centrifugo_CommunicateServer" where
  "new_stream msgs = \<lparr>incoming = msgs, sent = [], failed = [], trailers = []\<rparr>"

subsection \<open>What a session shows\<close>

definition written :: "('c, 'r, 's) session \<Rightarrow> 'r list" where
  "written s = sent (stream (transport s))"

definition refused :: "('c, 'r, 's) session \<Rightarrow> ('r \<times> error) list" where
  "refused s = failed (stream (transport s))"

definition queued :: "('c, 'r, 's) session \<Rightarrow> 'r list" where
  "queued s = buf (replies (transport s))"

definition queue_closed :: "('c, 'r, 's) session \<Rightarrow> bool" where
  "queue_closed s = chan_closed (replies (transport s))"

text \<open>
  What holds once the body of \<open>Communicate\<close> has left its loop with the result \<open>r\<close>:
  with nil, no write was refused, the queue is closed and empty and the goroutine (which
  closed it) has returned; with an error, the one refused write is the one that gave this
  error.
\<close>

definition leaves :: "('c, 'r, 's) session \<Rightarrow> error option \<Rightarrow> bool" where
  "leaves s r =
     (case r of
        None \<Rightarrow> refused s = [] \<and> queue_closed s \<and> queued s = [] \<and> inbound s = Exited
      | Some e \<Rightarrow> (\<exists>rep. refused s = [(rep, e)]))"

text \<open>The invariant of a session; every schedule keeps it.\<close>

definition session_inv :: "('c, 'r, 's) env \<Rightarrow> ('c, 'r, 's) session \<Rightarrow> bool" where
  "session_inv E s \<longleftrightarrow>
     written s @ map fst (refused s) @ queued s = accepted s
   \<and> (queue_closed s \<longrightarrow> closed (transport s))
   \<and> (closed (transport s) \<longleftrightarrow> close_calls s \<noteq> [])
   \<and> length (close_calls s) =
       (if inbound s = Exited then 1 else 0) + (case outbound s of Returned r \<Rightarrow> 1 | _ \<Rightarrow> 0)
   \<and> (case outbound s of
        Ranging \<Rightarrow> refused s = []
      | Returning r \<Rightarrow> leaves s r
      | Returned r \<Rightarrow> leaves s r)
   \<and> trailers (stream (transport s)) =
       (if queue_closed s
        then (case json_Marshal E (hd (close_calls s)) of
                Inr j \<Rightarrow> [metadata_Pairs ''disconnect'' j] | Inl e \<Rightarrow> [])
        else [])
   \<and> (queue_closed s \<longrightarrow> (\<exists>j. json_Marshal E (hd (close_calls s)) = Inr j))
   \<and> (\<forall>(rep, e) \<in> set (refused s). network_write E (written s) rep = Some e)
   \<and> (panicked s \<longrightarrow> (\<exists>r. outbound s = Returned r))
   \<and> cap (replies (transport s)) = replyBufferSize
   \<and> length (queued s) \<le> replyBufferSize"

subsection \<open>A session to run\<close>

text \<open>
  A small world on which the model can be run: commands and replies are numbers, the
  client answers each command with its number and never disconnects, the JSON of a
  disconnect is its reason, and every write gets the answer \<open>w\<close>.
\<close>

definition test_env :: "error option \<Rightarrow> (nat, nat, unit) env" where
  "test_env w =
     \<lparr>json_Marshal = (\<lambda>d. Inr (Reason d)),
      client_Handle = (\<lambda>c cmd. ((Some cmd, None), c)),
      network_write = (\<lambda>ws r. w),
      DisconnectNormal = \<lparr>Reason = ''normal'', Reconnect = True\<rparr>\<rparr>"

text \<open>The transport of a new session, with \<open>n\<close> replies already waiting in the queue.\<close>

definition test_transport :: "nat \<Rightarrow> (nat, nat) grpcTransport" where
  "test_transport n =
     newGRPCTransport (new_stream []) ((make_chan replyBufferSize)\<lparr>buf := replicate n 0\<rparr>)"

text \<open>
  A session in which \<open>n\<close> replies were accepted and none is written yet, with the
  client's future messages.
\<close>

definition test_session :: "nat \<Rightarrow> (error + nat) list \<Rightarrow> (nat, nat, unit) session" where
  "test_session n msgs =
     (Communicate_start (new_stream msgs) ())
       \<lparr>transport :=
          newGRPCTransport (new_stream msgs) ((make_chan replyBufferSize)\<lparr>buf := replicate n 0\<rparr>),
        accepted := replicate n 0\<rparr>"

section \<open>Send\<close>

text \<open>
  C3. \<open>Send\<close> never blocks. On an open reply queue of capacity 64: with fewer than 64
  replies waiting, \<open>Send\<close> appends the reply and returns nil; with 64 waiting it returns
  the buffer-full error at once and the transport, queue included, is unchanged. In both
  cases the call returns.
\<close>

theorem Send_never_blocks:
  assumes "\<not> chan_closed (replies t)" and "cap (replies t) = replyBufferSize"
  shows "(length (buf (replies t)) < 64 \<longrightarrow>
            Send t reply =
              (Returns None, t\<lparr>replies := (replies t)\<lparr>buf := buf (replies t) @ [Reply reply]\<rparr>\<rparr>))
       \<and> (length (buf (replies t)) = 64 \<longrightarrow>
            Send t reply =
              (Returns (Some (Error ''error sending to transport: buffer channel is full'')), t))
       \<and> (\<exists>res t'. Send t reply = (Returns res, t'))"
  using assms by (simp add: Send_def chan_trysend_def replyBufferSize_def)

theorem Send_never_blocks_witness:
  "\<not> chan_closed (replies (test_transport 3)) \<and> cap (replies (test_transport 3)) = replyBufferSize
   \<and> length (buf (replies (test_transport 3))) < 64
   \<and> fst (Send (test_transport 3) \<lparr>Reply = 7, Enc = EncodingProtobuf\<rparr>) = Returns None
   \<and> buf (replies (snd (Send (test_transport 3) \<lparr>Reply = 7, Enc = EncodingProtobuf\<rparr>))) = [0, 0, 0, 7]
   \<and> \<not> chan_closed (replies (test_transport 64)) \<and> cap (replies (test_transport 64)) = replyBufferSize
   \<and> length (buf (replies (test_transport 64))) = 64
   \<and> Send (test_transport 64) \<lparr>Reply = 7, Enc = EncodingProtobuf\<rparr> =
       (Returns (Some (Error ''error sending to transport: buffer channel is full'')), test_transport 64)"
proof -
  have a: "\<not> chan_closed (replies (test_transport n))" "cap (replies (test_transport n)) = replyBufferSize"
    "length (buf (replies (test_transport n))) = n" "buf (replies (test_transport n)) = replicate n 0" for n
    by (simp_all add: test_transport_def newGRPCTransport_def make_chan_def)
  have b: "replicate 3 (0::nat) = [0, 0, 0]" by (simp add: numeral_3_eq_3)
  show ?thesis
    using Send_never_blocks[OF a(1,2), of 3 "\<lparr>Reply = 7, Enc = EncodingProtobuf\<rparr>"]
      Send_never_blocks[OF a(1,2), of 64 "\<lparr>Reply = 7, Enc = EncodingProtobuf\<rparr>"]
    by (simp add: a b)
qed

section \<open>Close\<close>

lemma Close_closed: "closed t \<Longrightarrow> Close marshal t d = (Returns None, t)"
  by (simp add: Close_def)

lemma closed_Close: "closed (snd (Close marshal t d))"
  by (simp add: Close_def chan_close_def Let_def split: sum.splits)

lemma Close_calls_closed:
  "closed t \<Longrightarrow> Close_calls marshal t ds = (replicate (length ds) (Returns None), t)"
  by (induction ds) (simp_all add: Close_closed)

lemma Close_calls_Cons:
  "Close_calls marshal t (d # ds) =
     (fst (Close marshal t d) # replicate (length ds) (Returns None), snd (Close marshal t d))"
  by (simp add: split_beta Close_calls_closed closed_Close)

lemma Close_first:
  assumes "\<not> closed t" and "\<not> chan_closed (replies t)" and "marshal d = Inr j"
  shows "Close marshal t d =
     (Returns None,
      t\<lparr>closed := True,
        stream := SetTrailer (stream t) (metadata_Pairs ''disconnect'' j),
        replies := (replies t)\<lparr>chan_closed := True\<rparr>\<rparr>)"
  using assms by (simp add: Close_def chan_close_def)

lemma Close_marshal_error:
  assumes "\<not> closed t" and "marshal d = Inl err"
  shows "Close marshal t d = (Returns (Some err), t\<lparr>closed := True\<rparr>)"
  using assms by (simp add: Close_def)

lemma trailers_Close_le:
  "length (trailers (stream (snd (Close marshal t d)))) \<le> Suc (length (trailers (stream t)))"
  by (simp add: Close_def chan_close_def SetTrailer_def Let_def split: sum.splits)

text \<open>
  C2. \<open>Close\<close> is idempotent. The first call, on a transport that is not closed and
  whose queue is open, with a disconnect that \<open>json.Marshal\<close> encodes, returns nil,
  sets the closed flag, attaches the trailer \<open>disconnect\<close> with that JSON and closes the
  reply queue. Whatever the first call was, every later call, with any disconnect and
  any encoder, returns nil and leaves the transport exactly as the first call left it,
  so the trailer stays the one of the first call.
\<close>

theorem Close_idempotent:
  "(\<not> closed t \<and> \<not> chan_closed (replies t) \<and> marshal d = Inr j \<longrightarrow>
      Close marshal t d =
        (Returns None,
         t\<lparr>closed := True,
           stream := (stream t)\<lparr>trailers := trailers (stream t) @ [metadata_Pairs ''disconnect'' j]\<rparr>,
           replies := (replies t)\<lparr>chan_closed := True\<rparr>\<rparr>))
   \<and> Close marshal' (snd (Close marshal t d)) d' = (Returns None, snd (Close marshal t d))
   \<and> Close_calls marshal' (snd (Close marshal t d)) ds =
       (replicate (length ds) (Returns None), snd (Close marshal t d))"
  by (simp add: Close_first SetTrailer_def Close_closed Close_calls_closed closed_Close)

theorem Close_idempotent_witness:
  "\<not> closed (test_transport 2) \<and> \<not> chan_closed (replies (test_transport 2))
   \<and> fst (Close (\<lambda>d. Inr (Reason d)) (test_transport 2) \<lparr>Reason = ''first'', Reconnect = False\<rparr>) = Returns None
   \<and> trailers (stream (snd (Close (\<lambda>d. Inr (Reason d)) (test_transport 2) \<lparr>Reason = ''first'', Reconnect = False\<rparr>)))
       = [[(''disconnect'', [''first''])]]
   \<and> chan_closed (replies (snd (Close (\<lambda>d. Inr (Reason d)) (test_transport 2) \<lparr>Reason = ''first'', Reconnect = False\<rparr>)))
   \<and> trailers (stream (snd (Close (\<lambda>d. Inr (Reason d))
         (snd (Close (\<lambda>d. Inr (Reason d)) (test_transport 2) \<lparr>Reason = ''first'', Reconnect = False\<rparr>))
         \<lparr>Reason = ''second'', Reconnect = True\<rparr>)))
       = [[(''disconnect'', [''first''])]]
   \<and> fst (Close (\<lambda>d. Inr (Reason d))
         (snd (Close (\<lambda>d. Inr (Reason d)) (test_transport 2) \<lparr>Reason = ''first'', Reconnect = False\<rparr>))
         \<lparr>Reason = ''second'', Reconnect = True\<rparr>) = Returns None"
proof -
  have a: "\<not> closed (test_transport 2)" "\<not> chan_closed (replies (test_transport 2))"
    "trailers (stream (test_transport 2)) = []"
    by (simp_all add: test_transport_def newGRPCTransport_def make_chan_def new_stream_def)
  show ?thesis
    using Close_idempotent[where t = "test_transport 2" and marshal = "\<lambda>d. Inr (Reason d)"
        and d = "\<lparr>Reason = ''first'', Reconnect = False\<rparr>" and j = "''first''"
        and marshal' = "\<lambda>d. Inr (Reason d)"
        and d' = "\<lparr>Reason = ''second'', Reconnect = True\<rparr>" and ds = "[]"]
    by (simp add: a metadata_Pairs_def Close_closed)
qed

text \<open>
  C4, as the code has it. \<open>Close\<close> called any number of times, in whatever order the
  mutex lets the calls in: only the first call can do anything, every later call returns
  nil and changes nothing, so at most one trailer is attached and the queue is closed at
  most once. When the first disconnect encodes, exactly one trailer (its own) is
  attached, the queue is closed, and all calls return nil. When it does not encode, the
  first call alone returns the encoding error and the others return nil.
\<close>

theorem Close_calls_once:
  "Close_calls marshal t (d # ds) =
     (fst (Close marshal t d) # replicate (length ds) (Returns None), snd (Close marshal t d))
   \<and> length (trailers (stream (snd (Close_calls marshal t (d # ds))))) \<le>
       Suc (length (trailers (stream t)))
   \<and> (\<not> closed t \<and> \<not> chan_closed (replies t) \<and> marshal d = Inr j \<longrightarrow>
        Close_calls marshal t (d # ds) =
          (replicate (Suc (length ds)) (Returns None),
           t\<lparr>closed := True,
             stream := (stream t)\<lparr>trailers := trailers (stream t) @ [metadata_Pairs ''disconnect'' j]\<rparr>,
             replies := (replies t)\<lparr>chan_closed := True\<rparr>\<rparr>))
   \<and> (\<not> closed t \<and> marshal d = Inl err \<longrightarrow>
        fst (Close_calls marshal t (d # ds)) =
          Returns (Some err) # replicate (length ds) (Returns None))"
proof -
  have a: "Close_calls marshal t (d # ds) =
     (fst (Close marshal t d) # replicate (length ds) (Returns None), snd (Close marshal t d))"
    by (rule Close_calls_Cons)
  have b: "length (trailers (stream (snd (Close_calls marshal t (d # ds))))) \<le>
       Suc (length (trailers (stream t)))"
    unfolding a by (simp add: trailers_Close_le)
  have c: "Close_calls marshal t (d # ds) =
          (replicate (Suc (length ds)) (Returns None),
           t\<lparr>closed := True,
             stream := (stream t)\<lparr>trailers := trailers (stream t) @ [metadata_Pairs ''disconnect'' j]\<rparr>,
             replies := (replies t)\<lparr>chan_closed := True\<rparr>\<rparr>)"
    if "\<not> closed t" "\<not> chan_closed (replies t)" "marshal d = Inr j"
    unfolding a using that by (simp add: Close_first SetTrailer_def)
  have e: "fst (Close_calls marshal t (d # ds)) =
          Returns (Some err) # replicate (length ds) (Returns None)"
    if "\<not> closed t" "marshal d = Inl err"
    unfolding a using that by (simp add: Close_marshal_error)
  show ?thesis using a b c e by blast
qed

theorem Close_calls_once_witness:
  "\<not> closed (test_transport 2) \<and> \<not> chan_closed (replies (test_transport 2))
   \<and> Close_calls (\<lambda>d. if Reconnect d then Inr (Reason d) else Inl (Error ''json: unsupported value''))
        (test_transport 2)
        [\<lparr>Reason = ''shutdown'', Reconnect = True\<rparr>, \<lparr>Reason = ''normal'', Reconnect = True\<rparr>,
         \<lparr>Reason = ''stale'', Reconnect = False\<rparr>] =
       ([Returns None, Returns None, Returns None],
        (test_transport 2)\<lparr>closed := True,
          stream := (stream (test_transport 2))\<lparr>trailers := [[(''disconnect'', [''shutdown''])]]\<rparr>,
          replies := (replies (test_transport 2))\<lparr>chan_closed := True\<rparr>\<rparr>)
   \<and> fst (Close_calls (\<lambda>d. if Reconnect d then Inr (Reason d) else Inl (Error ''json: unsupported value''))
        (test_transport 2)
        [\<lparr>Reason = ''stale'', Reconnect = False\<rparr>, \<lparr>Reason = ''normal'', Reconnect = True\<rparr>]) =
       [Returns (Some (Error ''json: unsupported value'')), Returns None]"
proof -
  have a: "\<not> closed (test_transport 2)" "\<not> chan_closed (replies (test_transport 2))"
    "trailers (stream (test_transport 2)) = []"
    by (simp_all add: test_transport_def newGRPCTransport_def make_chan_def new_stream_def)
  show ?thesis
    using Close_calls_once[where t = "test_transport 2"
        and marshal = "\<lambda>d. if Reconnect d then Inr (Reason d) else Inl (Error ''json: unsupported value'')"
        and d = "\<lparr>Reason = ''shutdown'', Reconnect = True\<rparr>" and j = "''shutdown''"
        and ds = "[\<lparr>Reason = ''normal'', Reconnect = True\<rparr>, \<lparr>Reason = ''stale'', Reconnect = False\<rparr>]",
        THEN conjunct2, THEN conjunct2, THEN conjunct1]
      Close_calls_once[where t = "test_transport 2"
        and marshal = "\<lambda>d. if Reconnect d then Inr (Reason d) else Inl (Error ''json: unsupported value'')"
        and d = "\<lparr>Reason = ''stale'', Reconnect = False\<rparr>" and err = "Error ''json: unsupported value''"
        and ds = "[\<lparr>Reason = ''normal'', Reconnect = True\<rparr>]",
        THEN conjunct2, THEN conjunct2, THEN conjunct2]
    by (simp add: a metadata_Pairs_def del: Close_calls.simps)
qed

text \<open>
  That every call returns the same encoding error, and that one trailer is attached
  all the same, does not hold when the first disconnect does not encode: the second call
  returns nil, no trailer is attached and the queue stays open.
\<close>

theorem Close_calls_marshal_error_counterexample:
  "fst (Close_calls (\<lambda>d. if Reconnect d then Inr (Reason d) else Inl (Error ''json: unsupported value''))
        (test_transport 2)
        [\<lparr>Reason = ''stale'', Reconnect = False\<rparr>, \<lparr>Reason = ''normal'', Reconnect = True\<rparr>]) =
     [Returns (Some (Error ''json: unsupported value'')), Returns None]
   \<and> trailers (stream (snd (Close_calls
        (\<lambda>d. if Reconnect d then Inr (Reason d) else Inl (Error ''json: unsupported value''))
        (test_transport 2)
        [\<lparr>Reason = ''stale'', Reconnect = False\<rparr>, \<lparr>Reason = ''normal'', Reconnect = True\<rparr>]))) = []
   \<and> \<not> chan_closed (replies (snd (Close_calls
        (\<lambda>d. if Reconnect d then Inr (Reason d) else Inl (Error ''json: unsupported value''))
        (test_transport 2)
        [\<lparr>Reason = ''stale'', Reconnect = False\<rparr>, \<lparr>Reason = ''normal'', Reconnect = True\<rparr>])))"
  by (simp add: Close_def test_transport_def newGRPCTransport_def make_chan_def new_stream_def)

section \<open>Every schedule keeps the invariant\<close>

lemmas obs_defs = written_def refused_def queued_def queue_closed_def leaves_def

lemma inv_start: "session_inv E (Communicate_start (new_stream msgs) c0)"
  by (simp add: session_inv_def obs_defs Communicate_start_def new_stream_def newGRPCTransport_def make_chan_def)

lemma inv_client_Close_in:
  "session_inv E s \<Longrightarrow> inbound s = Closing d \<Longrightarrow> session_inv E ((client_Close E s d)\<lparr>inbound := Exited\<rparr>)"
  unfolding session_inv_def obs_defs client_Close_def Close_def chan_close_def SetTrailer_def
  by (auto simp: Let_def split: sum.splits outbound_pc.splits option.splits)

lemma inv_client_Close_out:
  "session_inv E s \<Longrightarrow> outbound s = Returning r \<Longrightarrow> session_inv E ((client_Close E s d)\<lparr>outbound := Returned r\<rparr>)"
  unfolding session_inv_def obs_defs client_Close_def Close_def chan_close_def SetTrailer_def
  by (auto simp: Let_def split: sum.splits option.splits)

lemma inv_send_reply:
  "session_inv E s \<Longrightarrow> inbound s = Receiving \<Longrightarrow> session_inv E (send_reply s r)"
  unfolding session_inv_def obs_defs send_reply_def Send_def chan_trysend_def NewPreparedReply_def
  by (auto simp: replyBufferSize_def split: outbound_pc.splits option.splits)

lemma inv_handle_command:
  "session_inv E s \<Longrightarrow> inbound s = Receiving \<Longrightarrow> session_inv E (handle_command E s cmd)"
proof -
  assume inv: "session_inv E s" and rc: "inbound s = Receiving"
  have a: "session_inv E (s\<lparr>client := c'\<rparr>)" for c'
    using inv by (auto simp: session_inv_def obs_defs split: outbound_pc.splits option.splits)
  have b: "session_inv E (s\<lparr>client := c', inbound := Closing d\<rparr>)" for c' d
    using inv rc by (auto simp: session_inv_def obs_defs split: outbound_pc.splits option.splits)
  show ?thesis
    using a b inv_send_reply[OF a] rc
    by (simp add: handle_command_def split: prod.splits option.splits)
qed

lemma inv_inbound: "session_inv E s \<Longrightarrow> session_inv E (inbound_step E s)"
proof (cases "inbound s")
  case Receiving
  assume inv: "session_inv E s"
  have a: "session_inv E (s\<lparr>transport := (transport s)\<lparr>stream := (stream (transport s))\<lparr>incoming := xs\<rparr>\<rparr>\<rparr>)" for xs
    using inv by (auto simp: session_inv_def obs_defs split: outbound_pc.splits option.splits)
  have b: "session_inv E (s\<lparr>transport := (transport s)\<lparr>stream := (stream (transport s))\<lparr>incoming := xs\<rparr>\<rparr>,
             inbound := Closing d\<rparr>)" for xs d
    using inv Receiving by (auto simp: session_inv_def obs_defs split: outbound_pc.splits option.splits)
  show ?thesis
    using Receiving inv b inv_handle_command[OF a]
    by (simp add: inbound_step_def stream_Recv_def split: list.splits sum.splits)
next
  case (Closing d)
  assume "session_inv E s"
  then show ?thesis using Closing inv_client_Close_in[of E s d] by (simp add: inbound_step_def)
next
  case Exited
  assume "session_inv E s"
  then show ?thesis using Exited by (simp add: inbound_step_def)
qed

lemma inv_outbound: "session_inv E s \<Longrightarrow> session_inv E (outbound_step E s)"
proof (cases "outbound s")
  case Ranging
  assume "session_inv E s"
  then show ?thesis using Ranging
  unfolding session_inv_def obs_defs outbound_step_def chan_recv_def stream_Send_def
  by (auto simp: Let_def split: list.splits sum.splits option.splits prod.splits if_splits)
next
  case (Returning r)
  assume "session_inv E s"
  then show ?thesis using Returning inv_client_Close_out[of E s r] by (simp add: outbound_step_def)
next
  case (Returned r)
  assume "session_inv E s"
  then show ?thesis using Returned by (simp add: outbound_step_def)
qed

lemma inv_step: "session_inv E s \<Longrightarrow> session_inv E (step E th s)"
  by (cases th) (simp_all add: step_def inv_inbound inv_outbound)

lemma inv_run: "session_inv E s \<Longrightarrow> session_inv E (run E sched s)"
  by (induction sched arbitrary: s) (simp_all add: inv_step)

lemma inv_Communicate: "session_inv E (Communicate E (new_stream msgs) c0 sched)"
  by (simp add: Communicate_def inv_run inv_start)

section \<open>The body of Communicate after the queue is closed\<close>

text \<open>
  Once the goroutine has returned and the queue is closed, the body of \<open>Communicate\<close>
  needs one turn for each waiting reply, one to see the queue closed and empty, and one
  for its deferred call: with these, and no write refused, it returns nil.
\<close>

lemma step_Inbound_Exited: "inbound s = Exited \<Longrightarrow> step E Inbound s = s"
  by (simp add: step_def inbound_step_def)

lemma step_Returned:
  "inbound s = Exited \<Longrightarrow> outbound s = Returned r \<Longrightarrow> step E th s = s"
  by (cases th) (simp_all add: step_def inbound_step_def outbound_step_def)

lemma run_Returned:
  "inbound s = Exited \<Longrightarrow> outbound s = Returned r \<Longrightarrow> run E sched s = s"
  by (induction sched) (simp_all add: step_Returned)

lemma client_Close_closed:
  "closed (transport s) \<Longrightarrow> client_Close E s d = s\<lparr>close_calls := close_calls s @ [d]\<rparr>"
  by (simp add: client_Close_def Close_closed)

lemma step_Outbound_Returning:
  "\<not> panicked s \<Longrightarrow> closed (transport s) \<Longrightarrow> outbound s = Returning r \<Longrightarrow>
   step E Outbound s = s\<lparr>close_calls := close_calls s @ [DisconnectNormal E], outbound := Returned r\<rparr>"
  by (simp add: step_def outbound_step_def client_Close_closed)

lemma step_Outbound_Drained:
  "\<not> panicked s \<Longrightarrow> outbound s = Ranging \<Longrightarrow> queue_closed s \<Longrightarrow> queued s = [] \<Longrightarrow>
   step E Outbound s = s\<lparr>outbound := Returning None\<rparr>"
  by (simp add: step_def outbound_step_def chan_recv_def queue_closed_def queued_def)

lemma step_Outbound_Got:
  "\<not> panicked s \<Longrightarrow> outbound s = Ranging \<Longrightarrow> queued s = r # rs \<Longrightarrow>
   network_write E (written s) r = None \<Longrightarrow>
   step E Outbound s =
     s\<lparr>transport := (transport s)\<lparr>replies := (replies (transport s))\<lparr>buf := rs\<rparr>,
          stream := (stream (transport s))\<lparr>sent := sent (stream (transport s)) @ [r]\<rparr>\<rparr>\<rparr>"
  by (simp add: step_def outbound_step_def chan_recv_def stream_Send_def queued_def written_def)

lemma finish_Returning:
  assumes "inbound s = Exited" and "\<not> panicked s" and "closed (transport s)"
    and "outbound s = Returning r"
  shows "1 \<le> count_list sched Outbound \<Longrightarrow>
     outbound (run E sched s) = Returned r \<and> written (run E sched s) = written s
     \<and> accepted (run E sched s) = accepted s"
proof (induction sched)
  case Nil
  then show ?case by simp
next
  case (Cons th sched)
  show ?case
  proof (cases th)
    case Inbound
    then show ?thesis using Cons assms by (simp add: step_Inbound_Exited)
  next
    case Outbound
    have "run E sched (step E Outbound s) = step E Outbound s"
      using assms by (simp add: step_Outbound_Returning run_Returned)
    then show ?thesis using Outbound assms by (simp add: step_Outbound_Returning written_def)
  qed
qed

lemma drain:
  assumes nw: "\<forall>ws r. network_write E ws r = None"
  shows "inbound s = Exited \<Longrightarrow> \<not> panicked s \<Longrightarrow> closed (transport s) \<Longrightarrow> queue_closed s \<Longrightarrow>
     outbound s = Ranging \<Longrightarrow> length (queued s) + 2 \<le> count_list sched Outbound \<Longrightarrow>
     outbound (run E sched s) = Returned None \<and> written (run E sched s) = written s @ queued s
     \<and> accepted (run E sched s) = accepted s"
proof (induction sched arbitrary: s)
  case Nil
  then show ?case by simp
next
  case (Cons th sched)
  show ?case
  proof (cases th)
    case Inbound
    then show ?thesis using Cons by (simp add: step_Inbound_Exited)
  next
    case Outbound
    show ?thesis
    proof (cases "queued s")
      case Nil
      let ?s1 = "s\<lparr>outbound := Returning None\<rparr>"
      have s1: "step E Outbound s = ?s1"
        using Cons.prems Nil by (simp add: step_Outbound_Drained)
      have "1 \<le> count_list sched Outbound" using Cons.prems(6) Outbound by simp
      then have "outbound (run E sched ?s1) = Returned None \<and> written (run E sched ?s1) = written ?s1
         \<and> accepted (run E sched ?s1) = accepted ?s1"
        using Cons.prems by (intro finish_Returning) simp_all
      then show ?thesis using Outbound s1 Nil by (simp add: written_def)
    next
      case (Cons r rs)
      let ?s1 = "s\<lparr>transport := (transport s)\<lparr>replies := (replies (transport s))\<lparr>buf := rs\<rparr>,
          stream := (stream (transport s))\<lparr>sent := sent (stream (transport s)) @ [r]\<rparr>\<rparr>\<rparr>"
      have s1: "step E Outbound s = ?s1"
        using Cons.prems Cons nw by (simp add: step_Outbound_Got)
      have "outbound (run E sched ?s1) = Returned None
         \<and> written (run E sched ?s1) = written ?s1 @ queued ?s1
         \<and> accepted (run E sched ?s1) = accepted ?s1"
        using Cons.prems Cons Outbound
        by (intro Cons.IH) (simp_all add: queue_closed_def queued_def)
      then show ?thesis using Outbound s1 Cons by (simp add: written_def queued_def)
    qed
  qed
qed

lemma reachable_closed_Ranging:
  assumes "session_inv E s" and "queue_closed s" and "outbound s = Ranging"
  shows "inbound s = Exited \<and> \<not> panicked s \<and> closed (transport s)
     \<and> written s @ queued s = accepted s"
  using assms by (auto simp: session_inv_def split: if_splits)

section \<open>Communicate\<close>

text \<open>
  C1, as the code has it. In every session, under every schedule: what the body of
  \<open>Communicate\<close> has written to the stream is a prefix of what \<open>Send\<close> accepted, in
  the order in which \<open>Send\<close> accepted it, and the replies written, then the one reply
  whose write was refused (if there is one), then the replies waiting in the queue, are
  exactly the accepted ones. So while no write is refused no reply is dropped, repeated or
  moved, and when \<open>Communicate\<close> returns nil every accepted reply has been written.
  And the writes happen: once the queue is closed, if the network refuses no write, then
  after one turn of the body for each waiting reply and two more, whatever the goroutine
  does in between, \<open>Communicate\<close> has returned nil and the stream holds exactly the
  accepted replies, no reply having been accepted since.
\<close>

theorem outbound_writes_accepted_in_order:
  assumes "s = Communicate E (new_stream msgs) c0 sched"
  shows "prefix (written s) (accepted s)
     \<and> written s @ map fst (refused s) @ queued s = accepted s
     \<and> (refused s = [] \<longrightarrow> written s @ queued s = accepted s)
     \<and> (outbound s = Returned None \<longrightarrow> written s = accepted s)
     \<and> (queue_closed s \<and> outbound s = Ranging \<and> (\<forall>ws r. network_write E ws r = None) \<longrightarrow>
          (\<forall>more. length (queued s) + 2 \<le> count_list more Outbound \<longrightarrow>
             outbound (run E more s) = Returned None
           \<and> written (run E more s) = accepted s
           \<and> accepted (run E more s) = accepted s))"
proof -
  have inv: "session_inv E s"
    using assms by (simp add: inv_Communicate)
  then have a: "written s @ map fst (refused s) @ queued s = accepted s"
    by (simp add: session_inv_def)
  then have b: "prefix (written s) (accepted s)"
    by (metis prefixI)
  have c: "written s = accepted s" if "outbound s = Returned None"
    using inv that by (auto simp: session_inv_def leaves_def)
  have d: "outbound (run E more s) = Returned None
           \<and> written (run E more s) = accepted s
           \<and> accepted (run E more s) = accepted s"
    if "queue_closed s" "outbound s = Ranging" "\<forall>ws r. network_write E ws r = None"
      "length (queued s) + 2 \<le> count_list more Outbound" for more
    using reachable_closed_Ranging[OF inv that(1,2)] drain[OF that(3), of s more] that
    by simp
  have a': "refused s = [] \<longrightarrow> written s @ queued s = accepted s"
    using a by auto
  show ?thesis using a a' b c d by blast
qed

theorem outbound_writes_accepted_in_order_witness:
  "queue_closed (Communicate (test_env None) (new_stream [Inr 5, Inr 6, Inl io_EOF]) ()
      [Inbound, Inbound, Inbound, Inbound])
   \<and> outbound (Communicate (test_env None) (new_stream [Inr 5, Inr 6, Inl io_EOF]) ()
      [Inbound, Inbound, Inbound, Inbound]) = Ranging
   \<and> accepted (Communicate (test_env None) (new_stream [Inr 5, Inr 6, Inl io_EOF]) ()
      [Inbound, Inbound, Inbound, Inbound]) = [5, 6]
   \<and> outbound (run (test_env None) [Outbound, Outbound, Inbound, Outbound, Outbound]
        (Communicate (test_env None) (new_stream [Inr 5, Inr 6, Inl io_EOF]) ()
           [Inbound, Inbound, Inbound, Inbound])) = Returned None
   \<and> written (run (test_env None) [Outbound, Outbound, Inbound, Outbound, Outbound]
        (Communicate (test_env None) (new_stream [Inr 5, Inr 6, Inl io_EOF]) ()
           [Inbound, Inbound, Inbound, Inbound])) = [5, 6]"
proof -
  let ?s = "Communicate (test_env None) (new_stream [Inr 5, Inr 6, Inl io_EOF]) ()
      [Inbound, Inbound, Inbound, Inbound]"
  have s: "?s = \<lparr>transport =
      \<lparr>closed = True,
       stream = \<lparr>incoming = [], sent = [], failed = [],
                 trailers = [[(''disconnect'', [''normal''])]]\<rparr>,
       replies = \<lparr>buf = [5, 6], cap = 64, chan_closed = True\<rparr>\<rparr>,
      client = (), inbound = Exited, outbound = Ranging, panicked = False,
      close_calls = [\<lparr>Reason = ''normal'', Reconnect = True\<rparr>], accepted = [5, 6]\<rparr>"
    by (simp add: Communicate_def Communicate_start_def new_stream_def newGRPCTransport_def
        make_chan_def replyBufferSize_def test_env_def step_def inbound_step_def stream_Recv_def
        handle_command_def send_reply_def Send_def chan_trysend_def NewPreparedReply_def
        client_Close_def Close_def chan_close_def SetTrailer_def metadata_Pairs_def)
  have q: "queue_closed ?s" "outbound ?s = Ranging" "accepted ?s = [5, 6]" "queued ?s = [5, 6]"
    "\<forall>ws r. network_write (test_env None :: (nat, nat, unit) env) ws r = None"
    unfolding s by (simp_all add: queue_closed_def queued_def test_env_def)
  show ?thesis
    using outbound_writes_accepted_in_order[OF refl, of "test_env None" "[Inr 5, Inr 6, Inl io_EOF]" "()"
        "[Inbound, Inbound, Inbound, Inbound]", THEN conjunct2, THEN conjunct2, THEN conjunct2,
        THEN conjunct2, rule_format, of "[Outbound, Outbound, Inbound, Outbound, Outbound]"]
    by (simp add: q)
qed

text \<open>
  That every accepted reply is written does not hold when a write is refused: two
  replies are accepted before the queue is closed, the first write fails, and
  \<open>Communicate\<close> returns the error having written none of them.
\<close>

theorem write_error_drops_replies_counterexample:
  "accepted (Communicate (test_env (Some (Error ''broken pipe''))) (new_stream [Inr 5, Inr 6, Inl io_EOF]) ()
      [Inbound, Inbound, Inbound, Inbound, Outbound, Outbound]) = [5, 6]
   \<and> queue_closed (Communicate (test_env (Some (Error ''broken pipe''))) (new_stream [Inr 5, Inr 6, Inl io_EOF]) ()
      [Inbound, Inbound, Inbound, Inbound, Outbound, Outbound])
   \<and> written (Communicate (test_env (Some (Error ''broken pipe''))) (new_stream [Inr 5, Inr 6, Inl io_EOF]) ()
      [Inbound, Inbound, Inbound, Inbound, Outbound, Outbound]) = []
   \<and> outbound (Communicate (test_env (Some (Error ''broken pipe''))) (new_stream [Inr 5, Inr 6, Inl io_EOF]) ()
      [Inbound, Inbound, Inbound, Inbound, Outbound, Outbound]) = Returned (Some (Error ''broken pipe''))"
  by (simp add: Communicate_def Communicate_start_def new_stream_def newGRPCTransport_def
        make_chan_def replyBufferSize_def test_env_def step_def inbound_step_def stream_Recv_def
        handle_command_def send_reply_def Send_def chan_trysend_def NewPreparedReply_def
        client_Close_def Close_def chan_close_def SetTrailer_def metadata_Pairs_def
        outbound_step_def chan_recv_def stream_Send_def written_def queue_closed_def)

lemmas run_defs = Communicate_def Communicate_start_def new_stream_def newGRPCTransport_def
  make_chan_def replyBufferSize_def test_env_def step_def inbound_step_def stream_Recv_def
  handle_command_def send_reply_def Send_def chan_trysend_def NewPreparedReply_def
  client_Close_def Close_def chan_close_def SetTrailer_def metadata_Pairs_def
  outbound_step_def chan_recv_def stream_Send_def

text \<open>
  C5, as the code has it. In every session, under every schedule, \<open>c.Close\<close> is called
  once by the goroutine when it returns (whatever made it return) and once more by the
  deferred call when \<open>Communicate\<close> returns: at most twice, at least once when
  \<open>Communicate\<close> has returned, and exactly twice when it has returned nil. The
  termination these calls ask for happens at most once: the transport is closed from the
  first call on, at most one trailer is attached, and when the queue is closed the trailer
  is the JSON of the first call's disconnect.
\<close>

theorem client_Close_called_once_or_twice:
  assumes "s = Communicate E (new_stream msgs) c0 sched"
  shows "length (close_calls s) =
           (if inbound s = Exited then 1 else 0) + (case outbound s of Returned r \<Rightarrow> 1 | _ \<Rightarrow> 0)
     \<and> length (close_calls s) \<le> 2
     \<and> ((\<exists>r. outbound s = Returned r) \<longrightarrow> 1 \<le> length (close_calls s))
     \<and> (outbound s = Returned None \<longrightarrow> length (close_calls s) = 2)
     \<and> (closed (transport s) \<longleftrightarrow> close_calls s \<noteq> [])
     \<and> length (trailers (stream (transport s))) \<le> 1
     \<and> (queue_closed s \<longrightarrow>
          (\<exists>j. json_Marshal E (hd (close_calls s)) = Inr j
             \<and> trailers (stream (transport s)) = [metadata_Pairs ''disconnect'' j]))"
proof -
  have inv: "session_inv E s"
    using assms by (simp add: inv_Communicate)
  have a: "length (close_calls s) =
           (if inbound s = Exited then 1 else 0) + (case outbound s of Returned r \<Rightarrow> 1 | _ \<Rightarrow> 0)"
    using inv by (simp add: session_inv_def)
  have b: "length (close_calls s) \<le> 2"
    unfolding a by (simp split: outbound_pc.splits)
  have c: "(\<exists>r. outbound s = Returned r) \<longrightarrow> 1 \<le> length (close_calls s)"
    unfolding a by auto
  have d: "outbound s = Returned None \<longrightarrow> length (close_calls s) = 2"
    using inv unfolding a by (auto simp: session_inv_def leaves_def)
  have e: "closed (transport s) \<longleftrightarrow> close_calls s \<noteq> []"
    using inv by (simp add: session_inv_def)
  have f: "length (trailers (stream (transport s))) \<le> 1"
    using inv by (auto simp: session_inv_def split: sum.splits)
  have g: "queue_closed s \<longrightarrow>
          (\<exists>j. json_Marshal E (hd (close_calls s)) = Inr j
             \<and> trailers (stream (transport s)) = [metadata_Pairs ''disconnect'' j])"
    using inv by (auto simp: session_inv_def)
  show ?thesis using a b c d e f g by blast
qed

theorem client_Close_called_once_or_twice_witness:
  "outbound (Communicate (test_env (Some (Error ''broken pipe''))) (new_stream [Inr 5, Inr 6]) ()
      [Inbound, Outbound, Outbound]) = Returned (Some (Error ''broken pipe''))
   \<and> inbound (Communicate (test_env (Some (Error ''broken pipe''))) (new_stream [Inr 5, Inr 6]) ()
      [Inbound, Outbound, Outbound]) = Receiving
   \<and> queue_closed (Communicate (test_env (Some (Error ''broken pipe''))) (new_stream [Inr 5, Inr 6]) ()
      [Inbound, Outbound, Outbound])
   \<and> length (close_calls (Communicate (test_env (Some (Error ''broken pipe''))) (new_stream [Inr 5, Inr 6]) ()
      [Inbound, Outbound, Outbound])) = 1
   \<and> length (trailers (stream (transport (Communicate (test_env (Some (Error ''broken pipe'')))
      (new_stream [Inr 5, Inr 6]) () [Inbound, Outbound, Outbound])))) \<le> 1"
proof -
  let ?s = "Communicate (test_env (Some (Error ''broken pipe''))) (new_stream [Inr 5, Inr 6]) ()
      [Inbound, Outbound, Outbound]"
  have q: "outbound ?s = Returned (Some (Error ''broken pipe''))" "inbound ?s = Receiving"
    "queue_closed ?s"
    by (simp_all add: run_defs queue_closed_def)
  show ?thesis
    using client_Close_called_once_or_twice[OF refl, of "test_env (Some (Error ''broken pipe''))"
        "[Inr 5, Inr 6]" "()" "[Inbound, Outbound, Outbound]"]
    by (simp add: q)
qed

text \<open>
  Exactly one call does not hold, already on the plainest session: the client ends the
  stream, the goroutine calls \<open>c.Close\<close> and returns, the body of \<open>Communicate\<close> sees
  the queue closed and empty, and its deferred call is the second.
\<close>

theorem client_Close_called_twice_counterexample:
  "inbound (Communicate (test_env None) (new_stream [Inl io_EOF]) ()
      [Inbound, Inbound, Outbound, Outbound]) = Exited
   \<and> outbound (Communicate (test_env None) (new_stream [Inl io_EOF]) ()
      [Inbound, Inbound, Outbound, Outbound]) = Returned None
   \<and> close_calls (Communicate (test_env None) (new_stream [Inl io_EOF]) ()
      [Inbound, Inbound, Outbound, Outbound]) =
       [\<lparr>Reason = ''normal'', Reconnect = True\<rparr>, \<lparr>Reason = ''normal'', Reconnect = True\<rparr>]"
  by (simp add: run_defs)

section \<open>How the goroutine ends a session\<close>

text \<open>
  The turns of one goroutine leave the other where it stands, a call of \<open>Close\<close> in a
  session does not panic, and a goroutine that has its disconnect calls \<open>c.Close\<close> with
  it at its next turn, whatever the body of \<open>Communicate\<close> did in between.
\<close>

lemma inbound_outbound_step: "inbound (outbound_step E s) = inbound s"
  by (simp add: outbound_step_def client_Close_def
      split: outbound_pc.splits recv.splits prod.splits option.splits outcome.splits)

lemma outbound_inbound_step: "outbound (inbound_step E s) = outbound s"
  by (simp add: inbound_step_def handle_command_def send_reply_def client_Close_def
      split: inbound_pc.splits prod.splits option.splits outcome.splits sum.splits)

lemma close_calls_client_Close: "close_calls (client_Close E s d) = close_calls s @ [d]"
  by (simp add: client_Close_def split: prod.splits outcome.splits)

lemma Close_no_panic:
  "chan_closed (replies t) \<longrightarrow> closed t \<Longrightarrow> \<exists>r. fst (Close marshal t d) = Returns r"
  by (simp add: Close_def chan_close_def Let_def split: sum.splits)

lemma panicked_client_Close:
  "session_inv E s \<Longrightarrow> panicked (client_Close E s d) = panicked s"
proof -
  assume "session_inv E s"
  then have "chan_closed (replies (transport s)) \<longrightarrow> closed (transport s)"
    by (auto simp: session_inv_def queue_closed_def)
  from Close_no_panic[OF this, of "json_Marshal E" d]
  show ?thesis by (auto simp: client_Close_def split: prod.splits outcome.splits)
qed

lemma panicked_outbound_step:
  "session_inv E s \<Longrightarrow> \<not> panicked s \<Longrightarrow> \<not> panicked (outbound_step E s)"
  by (simp add: outbound_step_def panicked_client_Close
      split: outbound_pc.splits recv.splits prod.splits option.splits)

lemma run_Outbound_turns:
  "session_inv E s \<Longrightarrow> \<not> panicked s \<Longrightarrow>
   session_inv E (run E (replicate k Outbound) s) \<and> \<not> panicked (run E (replicate k Outbound) s)
   \<and> inbound (run E (replicate k Outbound) s) = inbound s"
proof (induction k arbitrary: s)
  case 0
  then show ?case by simp
next
  case (Suc k)
  have "session_inv E (step E Outbound s)" "\<not> panicked (step E Outbound s)"
    "inbound (step E Outbound s) = inbound s"
    using Suc.prems by (simp_all add: inv_step) (simp_all add: step_def panicked_outbound_step inbound_outbound_step)
  then show ?case using Suc.IH[of "step E Outbound s"] by simp
qed

lemma Closing_exits:
  assumes "session_inv E s" and "\<not> panicked s" and "inbound s = Closing d"
  shows "inbound (run E (replicate k Outbound) s) = Closing d
     \<and> inbound (step E Inbound (run E (replicate k Outbound) s)) = Exited
     \<and> close_calls (step E Inbound (run E (replicate k Outbound) s)) =
         close_calls (run E (replicate k Outbound) s) @ [d]
     \<and> outbound (step E Inbound (run E (replicate k Outbound) s)) =
         outbound (run E (replicate k Outbound) s)"
proof -
  let ?s2 = "run E (replicate k Outbound) s"
  have a: "\<not> panicked ?s2" "inbound ?s2 = Closing d"
    using run_Outbound_turns[OF assms(1,2), of k] assms(3) by simp_all
  then have "step E Inbound ?s2 = (client_Close E ?s2 d)\<lparr>inbound := Exited\<rparr>"
    by (simp add: step_def inbound_step_def)
  then show ?thesis
    using a outbound_inbound_step[of E ?s2]
    by (simp add: close_calls_client_Close step_def)
qed

lemma Closing_sets_trailer:
  assumes "session_inv E s" and "\<not> panicked s" and "inbound s = Closing d"
    and "\<not> closed (transport s)" and "json_Marshal E d = Inr j"
  shows "trailers (stream (transport (step E Inbound s))) = [metadata_Pairs ''disconnect'' j]
     \<and> queue_closed (step E Inbound s)"
proof -
  have "\<not> chan_closed (replies (transport s))" "trailers (stream (transport s)) = []"
    using assms(1,4) by (auto simp: session_inv_def queue_closed_def)
  then show ?thesis
    using assms
    by (simp add: step_def inbound_step_def client_Close_def Close_first SetTrailer_def
        queue_closed_def)
qed

lemma Send_error:
  "fst (Send t p) = Returns (Some err) \<Longrightarrow> Send t p = (Returns (Some err), t)"
  by (simp add: Send_def chan_trysend_def split: if_splits)

text \<open>
  C7. In a session, when the goroutine has read a command, the client has answered it
  with a reply and no disconnect, and \<open>transport.Send\<close> returns an error: the reply is
  not queued, and the goroutine has the disconnect with the reason "error sending message"
  and \<open>Reconnect = true\<close>. However many turns the body of \<open>Communicate\<close> takes in
  between, the goroutine's next turn calls \<open>c.Close\<close> with this disconnect and returns.
  When the transport was not closed before and the disconnect encodes, the trailer is its
  JSON and the queue is closed; and so after any number of turns of the body, when the
  transport is still not closed at the goroutine's turn.
\<close>

theorem overflow_closes_with_reconnect:
  assumes "session_inv E s" and "\<not> panicked s" and "inbound s = Receiving"
    and "stream_Recv (stream (transport s)) = Some (Inr cmd, st')"
    and "client_Handle E (client s) cmd = ((Some rep, None), c')"
    and "fst (Send ((transport s)\<lparr>stream := st'\<rparr>) (NewPreparedReply rep EncodingProtobuf)) =
           Returns (Some err)"
  shows "inbound (step E Inbound s) =
           Closing \<lparr>Reason = ''error sending message'', Reconnect = True\<rparr>
     \<and> queued (step E Inbound s) = queued s
     \<and> accepted (step E Inbound s) = accepted s
     \<and> \<not> panicked (step E Inbound s)
     \<and> (\<forall>k. inbound (run E (replicate k Outbound) (step E Inbound s)) =
               Closing \<lparr>Reason = ''error sending message'', Reconnect = True\<rparr>
           \<and> inbound (step E Inbound (run E (replicate k Outbound) (step E Inbound s))) = Exited
           \<and> close_calls (step E Inbound (run E (replicate k Outbound) (step E Inbound s))) =
               close_calls (run E (replicate k Outbound) (step E Inbound s)) @
                 [\<lparr>Reason = ''error sending message'', Reconnect = True\<rparr>])
     \<and> (\<forall>j. \<not> closed (transport s)
            \<and> json_Marshal E \<lparr>Reason = ''error sending message'', Reconnect = True\<rparr> = Inr j \<longrightarrow>
            trailers (stream (transport (step E Inbound (step E Inbound s)))) =
              [metadata_Pairs ''disconnect'' j]
          \<and> queue_closed (step E Inbound (step E Inbound s)))
     \<and> (\<forall>k j. \<not> closed (transport (run E (replicate k Outbound) (step E Inbound s)))
            \<and> json_Marshal E \<lparr>Reason = ''error sending message'', Reconnect = True\<rparr> = Inr j \<longrightarrow>
            trailers (stream (transport
                (step E Inbound (run E (replicate k Outbound) (step E Inbound s))))) =
              [metadata_Pairs ''disconnect'' j]
          \<and> queue_closed (step E Inbound (run E (replicate k Outbound) (step E Inbound s))))"
proof -
  let ?d = "\<lparr>Reason = ''error sending message'', Reconnect = True\<rparr>"
  let ?s1 = "step E Inbound s"
  have s1: "?s1 = s\<lparr>transport := (transport s)\<lparr>stream := st'\<rparr>, client := c', inbound := Closing ?d\<rparr>"
    using assms(2-5) Send_error[OF assms(6)]
    by (simp add: step_def inbound_step_def handle_command_def send_reply_def)
  have inv1: "session_inv E ?s1" using assms(1) by (rule inv_step)
  have a: "inbound ?s1 = Closing ?d" "queued ?s1 = queued s" "accepted ?s1 = accepted s"
    "\<not> panicked ?s1" "closed (transport ?s1) = closed (transport s)"
    unfolding s1 using assms(2) by (simp_all add: queued_def)
  have b: "inbound (run E (replicate k Outbound) ?s1) = Closing ?d
           \<and> inbound (step E Inbound (run E (replicate k Outbound) ?s1)) = Exited
           \<and> close_calls (step E Inbound (run E (replicate k Outbound) ?s1)) =
               close_calls (run E (replicate k Outbound) ?s1) @ [?d]" for k
    using Closing_exits[OF inv1 a(4) a(1), of k] by simp
  have c: "trailers (stream (transport (step E Inbound ?s1))) = [metadata_Pairs ''disconnect'' j]
          \<and> queue_closed (step E Inbound ?s1)"
    if "\<not> closed (transport s)" "json_Marshal E ?d = Inr j" for j
    using Closing_sets_trailer[OF inv1 a(4) a(1) _ that(2)] that(1) a(5) by simp
  have c': "trailers (stream (transport (step E Inbound (run E (replicate k Outbound) ?s1)))) =
              [metadata_Pairs ''disconnect'' j]
          \<and> queue_closed (step E Inbound (run E (replicate k Outbound) ?s1))"
    if "\<not> closed (transport (run E (replicate k Outbound) ?s1))" "json_Marshal E ?d = Inr j"
    for k j
  proof -
    have "session_inv E (run E (replicate k Outbound) ?s1)"
      "\<not> panicked (run E (replicate k Outbound) ?s1)"
      "inbound (run E (replicate k Outbound) ?s1) = Closing ?d"
      using run_Outbound_turns[OF inv1 a(4), of k] a(1) by simp_all
    then show ?thesis using that by (intro Closing_sets_trailer)
  qed
  show ?thesis using a(1-4) b c c' by blast
qed

theorem overflow_closes_with_reconnect_witness:
  "session_inv (test_env None) (test_session 64 [Inr 9, Inr 10])
   \<and> fst (Send ((transport (test_session 64 [Inr 9, Inr 10]))\<lparr>stream := new_stream [Inr 10]\<rparr>)
            (NewPreparedReply 9 EncodingProtobuf)) =
       Returns (Some (Error ''error sending to transport: buffer channel is full''))
   \<and> inbound (step (test_env None) Inbound (test_session 64 [Inr 9, Inr 10])) =
       Closing \<lparr>Reason = ''error sending message'', Reconnect = True\<rparr>
   \<and> inbound (step (test_env None) Inbound (run (test_env None) (replicate 3 Outbound)
        (step (test_env None) Inbound (test_session 64 [Inr 9, Inr 10])))) = Exited
   \<and> trailers (stream (transport (step (test_env None) Inbound
        (step (test_env None) Inbound (test_session 64 [Inr 9, Inr 10]))))) =
       [[(''disconnect'', [''error sending message''])]]
   \<and> queue_closed (step (test_env None) Inbound
        (step (test_env None) Inbound (test_session 64 [Inr 9, Inr 10])))"
proof -
  let ?s = "test_session 64 [Inr 9, Inr 10]"
  let ?E = "test_env None :: (nat, nat, unit) env"
  have h: "session_inv ?E ?s" "\<not> panicked ?s" "inbound ?s = Receiving"
    "stream_Recv (stream (transport ?s)) = Some (Inr 9, new_stream [Inr 10])"
    "client_Handle ?E (client ?s) 9 = ((Some 9, None), ())"
    "fst (Send ((transport ?s)\<lparr>stream := new_stream [Inr 10]\<rparr>) (NewPreparedReply 9 EncodingProtobuf)) =
       Returns (Some (Error ''error sending to transport: buffer channel is full''))"
    "\<not> closed (transport ?s)"
    "json_Marshal ?E \<lparr>Reason = ''error sending message'', Reconnect = True\<rparr> =
       Inr ''error sending message''"
    by (simp_all add: test_session_def test_env_def session_inv_def written_def refused_def
        queued_def queue_closed_def Communicate_start_def newGRPCTransport_def make_chan_def
        new_stream_def replyBufferSize_def stream_Recv_def Send_def chan_trysend_def
        NewPreparedReply_def)
  note t = overflow_closes_with_reconnect[OF h(1-6)]
  show ?thesis
    using h(1,6,7,8) t[THEN conjunct1]
      t[THEN conjunct2, THEN conjunct2, THEN conjunct2, THEN conjunct2, THEN conjunct1,
        rule_format, of 3]
      t[THEN conjunct2, THEN conjunct2, THEN conjunct2, THEN conjunct2, THEN conjunct2,
        THEN conjunct1, rule_format, of "''error sending message''"]
    by (simp add: metadata_Pairs_def)
qed

text \<open>
  C8. In a session, when \<open>Recv\<close> returns an error, \<open>io.EOF\<close> or any other: the
  goroutine has the disconnect \<open>proto.DisconnectNormal\<close>, and nothing of what the body
  of \<open>Communicate\<close> returns has changed (no refused write, no panic, the body where it
  was). However many turns the body takes in between, the goroutine's next turn calls
  \<open>c.Close\<close> with \<open>proto.DisconnectNormal\<close> and returns, again leaving the body where it
  was. When the transport was not closed before and the disconnect encodes, the trailer
  is its JSON and the queue is closed; and so after any number of turns of the body, when
  the transport is still not closed at the goroutine's turn.
\<close>

theorem read_error_closes_normally:
  assumes "session_inv E s" and "\<not> panicked s" and "inbound s = Receiving"
    and "stream_Recv (stream (transport s)) = Some (Inl err, st')"
  shows "inbound (step E Inbound s) = Closing (DisconnectNormal E)
     \<and> outbound (step E Inbound s) = outbound s
     \<and> refused (step E Inbound s) = refused s
     \<and> \<not> panicked (step E Inbound s)
     \<and> (\<forall>k. inbound (run E (replicate k Outbound) (step E Inbound s)) =
               Closing (DisconnectNormal E)
           \<and> inbound (step E Inbound (run E (replicate k Outbound) (step E Inbound s))) = Exited
           \<and> close_calls (step E Inbound (run E (replicate k Outbound) (step E Inbound s))) =
               close_calls (run E (replicate k Outbound) (step E Inbound s)) @ [DisconnectNormal E]
           \<and> outbound (step E Inbound (run E (replicate k Outbound) (step E Inbound s))) =
               outbound (run E (replicate k Outbound) (step E Inbound s)))
     \<and> (\<forall>j. \<not> closed (transport s) \<and> json_Marshal E (DisconnectNormal E) = Inr j \<longrightarrow>
            trailers (stream (transport (step E Inbound (step E Inbound s)))) =
              [metadata_Pairs ''disconnect'' j]
          \<and> queue_closed (step E Inbound (step E Inbound s)))
     \<and> (\<forall>k j. \<not> closed (transport (run E (replicate k Outbound) (step E Inbound s)))
            \<and> json_Marshal E (DisconnectNormal E) = Inr j \<longrightarrow>
            trailers (stream (transport
                (step E Inbound (run E (replicate k Outbound) (step E Inbound s))))) =
              [metadata_Pairs ''disconnect'' j]
          \<and> queue_closed (step E Inbound (run E (replicate k Outbound) (step E Inbound s))))"
proof -
  let ?d = "DisconnectNormal E"
  let ?s1 = "step E Inbound s"
  have s1: "?s1 = s\<lparr>transport := (transport s)\<lparr>stream := st'\<rparr>, inbound := Closing ?d\<rparr>"
    using assms(2-4) by (simp add: step_def inbound_step_def)
  have st: "failed st' = failed (stream (transport s))"
    using assms(4) by (auto simp: stream_Recv_def split: list.splits)
  have inv1: "session_inv E ?s1" using assms(1) by (rule inv_step)
  have a: "inbound ?s1 = Closing ?d" "outbound ?s1 = outbound s" "refused ?s1 = refused s"
    "\<not> panicked ?s1" "closed (transport ?s1) = closed (transport s)"
    unfolding s1 using assms(2) st by (simp_all add: refused_def)
  have b: "inbound (run E (replicate k Outbound) ?s1) = Closing ?d
           \<and> inbound (step E Inbound (run E (replicate k Outbound) ?s1)) = Exited
           \<and> close_calls (step E Inbound (run E (replicate k Outbound) ?s1)) =
               close_calls (run E (replicate k Outbound) ?s1) @ [?d]
           \<and> outbound (step E Inbound (run E (replicate k Outbound) ?s1)) =
               outbound (run E (replicate k Outbound) ?s1)" for k
    using Closing_exits[OF inv1 a(4) a(1), of k] by simp
  have c: "trailers (stream (transport (step E Inbound ?s1))) = [metadata_Pairs ''disconnect'' j]
          \<and> queue_closed (step E Inbound ?s1)"
    if "\<not> closed (transport s)" "json_Marshal E ?d = Inr j" for j
    using Closing_sets_trailer[OF inv1 a(4) a(1) _ that(2)] that(1) a(5) by simp
  have c': "trailers (stream (transport (step E Inbound (run E (replicate k Outbound) ?s1)))) =
              [metadata_Pairs ''disconnect'' j]
          \<and> queue_closed (step E Inbound (run E (replicate k Outbound) ?s1))"
    if "\<not> closed (transport (run E (replicate k Outbound) ?s1))" "json_Marshal E ?d = Inr j"
    for k j
  proof -
    have "session_inv E (run E (replicate k Outbound) ?s1)"
      "\<not> panicked (run E (replicate k Outbound) ?s1)"
      "inbound (run E (replicate k Outbound) ?s1) = Closing ?d"
      using run_Outbound_turns[OF inv1 a(4), of k] a(1) by simp_all
    then show ?thesis using that by (intro Closing_sets_trailer)
  qed
  show ?thesis using a(1-4) b c c' by blast
qed

theorem read_error_closes_normally_witness:
  "session_inv (test_env None) (test_session 2 [Inl io_EOF])
   \<and> inbound (step (test_env None) Inbound (test_session 2 [Inl io_EOF])) =
       Closing \<lparr>Reason = ''normal'', Reconnect = True\<rparr>
   \<and> session_inv (test_env None) (test_session 2 [Inl (Error ''connection reset'')])
   \<and> inbound (step (test_env None) Inbound (test_session 2 [Inl (Error ''connection reset'')])) =
       Closing \<lparr>Reason = ''normal'', Reconnect = True\<rparr>
   \<and> outbound (step (test_env None) Inbound (test_session 2 [Inl (Error ''connection reset'')])) =
       Ranging
   \<and> close_calls (step (test_env None) Inbound (run (test_env None) (replicate 1 Outbound)
        (step (test_env None) Inbound (test_session 2 [Inl (Error ''connection reset'')])))) =
       [\<lparr>Reason = ''normal'', Reconnect = True\<rparr>]
   \<and> trailers (stream (transport (step (test_env None) Inbound
        (step (test_env None) Inbound (test_session 2 [Inl io_EOF]))))) =
       [[(''disconnect'', [''normal''])]]"
proof -
  let ?E = "test_env None :: (nat, nat, unit) env"
  have h: "session_inv ?E (test_session 2 msgs)" "\<not> panicked (test_session 2 msgs)"
    "inbound (test_session 2 msgs) = Receiving"
    "stream_Recv (stream (transport (test_session 2 [x]))) = Some (x, new_stream [])"
    "\<not> closed (transport (test_session 2 msgs))"
    "outbound (test_session 2 msgs) = Ranging"
    "close_calls (test_session 2 msgs) = []"
    "DisconnectNormal ?E = \<lparr>Reason = ''normal'', Reconnect = True\<rparr>"
    "json_Marshal ?E \<lparr>Reason = ''normal'', Reconnect = True\<rparr> = Inr ''normal''" for msgs x
    by (simp_all add: test_session_def test_env_def session_inv_def written_def refused_def
        queued_def queue_closed_def Communicate_start_def newGRPCTransport_def make_chan_def
        new_stream_def replyBufferSize_def stream_Recv_def)
  note e = read_error_closes_normally[where E = ?E and s = "test_session 2 [Inl io_EOF]"
      and err = io_EOF and st' = "new_stream []", OF h(1-4)]
  note r = read_error_closes_normally[where E = ?E
      and s = "test_session 2 [Inl (Error ''connection reset'')]"
      and err = "Error ''connection reset''" and st' = "new_stream []", OF h(1-4)]
  have cc: "close_calls (run ?E (replicate 1 Outbound)
        (step ?E Inbound (test_session 2 [Inl (Error ''connection reset'')]))) = []"
    by (simp add: test_session_def test_env_def Communicate_start_def newGRPCTransport_def
        make_chan_def new_stream_def replyBufferSize_def stream_Recv_def step_def inbound_step_def
        outbound_step_def chan_recv_def stream_Send_def numeral_2_eq_2)
  show ?thesis
    using cc h(1) e[THEN conjunct1] r[THEN conjunct1] r[THEN conjunct2, THEN conjunct1]
      r[THEN conjunct2, THEN conjunct2, THEN conjunct2, THEN conjunct2, THEN conjunct1,
        rule_format, of 1]
      e[THEN conjunct2, THEN conjunct2, THEN conjunct2, THEN conjunct2, THEN conjunct2,
        THEN conjunct1, rule_format, of "''normal''"]
    by (simp add: h(5-9) metadata_Pairs_def)
qed

section \<open>What Communicate returns\<close>

lemma run_append: "run E (xs @ ys) s = run E ys (run E xs s)"
  by (induction xs arbitrary: s) simp_all

lemma accepted_outbound_step: "accepted (outbound_step E s) = accepted s"
  by (simp add: outbound_step_def client_Close_def
      split: outbound_pc.splits recv.splits prod.splits option.splits outcome.splits)

lemma queued_outbound_step: "length (queued (outbound_step E s)) \<le> length (queued s)"
  by (auto simp: outbound_step_def client_Close_def Close_def chan_close_def chan_recv_def
      queued_def Let_def
      split: outbound_pc.splits list.splits prod.splits option.splits sum.splits if_splits)

lemma run_Outbound_queue:
  "accepted (run E (replicate k Outbound) s) = accepted s
   \<and> length (queued (run E (replicate k Outbound) s)) \<le> length (queued s)"
proof (induction k arbitrary: s)
  case 0
  then show ?case by simp
next
  case (Suc k)
  have "accepted (step E Outbound s) = accepted s"
    "length (queued (step E Outbound s)) \<le> length (queued s)"
    by (simp_all add: step_def accepted_outbound_step queued_outbound_step)
  then show ?case using Suc[of "step E Outbound s"] by simp
qed

lemma Closing_state:
  assumes "session_inv E s" and "inbound s = Closing d"
    and "\<forall>ws r. network_write E ws r = None"
  shows "outbound s = Ranging \<and> \<not> panicked s \<and> \<not> closed (transport s)
     \<and> \<not> queue_closed s \<and> written s @ queued s = accepted s"
proof -
  have r: "refused s = []"
  proof (cases "refused s")
    case Nil
    then show ?thesis .
  next
    case (Cons x xs)
    then have "network_write E (written s) (fst x) = Some (snd x)"
      using assms(1) by (auto simp: session_inv_def)
    then show ?thesis using assms(3) by simp
  qed
  have o: "outbound s = Ranging"
    using assms(1,2) r
    by (cases "outbound s") (auto simp: session_inv_def leaves_def split: option.splits)
  show ?thesis
    using assms(1,2) r o by (auto simp: session_inv_def)
qed

lemma Closing_returns_nil:
  assumes inv: "session_inv E s" and cl: "inbound s = Closing d"
    and enc: "json_Marshal E d = Inr j"
    and nw: "\<forall>ws r. network_write E ws r = None"
    and turns: "length (queued s) + 2 \<le> count_list post Outbound"
  shows "outbound (run E (replicate k Outbound @ Inbound # post) s) = Returned None
     \<and> written (run E (replicate k Outbound @ Inbound # post) s) = accepted s"
proof -
  let ?s2 = "run E (replicate k Outbound) s"
  have s: "\<not> panicked s"
    using Closing_state[OF inv cl nw] by simp
  have inv2: "session_inv E ?s2" and np2: "\<not> panicked ?s2" and cl2: "inbound ?s2 = Closing d"
    using run_Outbound_turns[OF inv s, of k] cl by simp_all
  have q2: "accepted ?s2 = accepted s" "length (queued ?s2) \<le> length (queued s)"
    using run_Outbound_queue[of E k s] by simp_all
  have st2: "outbound ?s2 = Ranging" "\<not> closed (transport ?s2)" "\<not> queue_closed ?s2"
    "written ?s2 @ queued ?s2 = accepted ?s2"
    using Closing_state[OF inv2 cl2 nw] by simp_all
  let ?s3 = "step E Inbound ?s2"
  have s3: "?s3 = (client_Close E ?s2 d)\<lparr>inbound := Exited\<rparr>"
    using np2 cl2 by (simp add: step_def inbound_step_def)
  have c3: "Close (json_Marshal E) (transport ?s2) d =
     (Returns None,
      (transport ?s2)\<lparr>closed := True,
        stream := SetTrailer (stream (transport ?s2)) (metadata_Pairs ''disconnect'' j),
        replies := (replies (transport ?s2))\<lparr>chan_closed := True\<rparr>\<rparr>)"
    using st2(2,3) enc by (intro Close_first) (simp_all add: queue_closed_def)
  have p3: "inbound ?s3 = Exited" "\<not> panicked ?s3" "closed (transport ?s3)" "queue_closed ?s3"
    "outbound ?s3 = Ranging" "queued ?s3 = queued ?s2" "written ?s3 = written ?s2"
    "accepted ?s3 = accepted ?s2"
    unfolding s3 using np2 st2(1)
    by (simp_all add: client_Close_def c3 queue_closed_def queued_def written_def SetTrailer_def)
  have "length (queued ?s3) + 2 \<le> count_list post Outbound"
    using turns q2(2) p3(6) by simp
  from drain[OF nw p3(1) p3(2) p3(3) p3(4) p3(5) this]
  have "outbound (run E post ?s3) = Returned None
     \<and> written (run E post ?s3) = written ?s3 @ queued ?s3" by simp
  then show ?thesis
    using p3(6,7) st2(4) q2(1) by (simp add: run_append)
qed

lemma Recv_error_step:
  assumes "inbound s = Receiving" and "\<not> panicked s"
    and "stream_Recv (stream (transport s)) = Some (Inl err, st')"
  shows "inbound (step E Inbound s) = Closing (DisconnectNormal E)
     \<and> outbound (step E Inbound s) = outbound s"
  using assms by (simp add: step_def inbound_step_def)

lemma Handle_disconnect_step:
  assumes "inbound s = Receiving" and "\<not> panicked s"
    and "stream_Recv (stream (transport s)) = Some (Inr cmd, st')"
    and "client_Handle E (client s) cmd = ((rep, Some d), c')"
  shows "inbound (step E Inbound s) = Closing d \<and> outbound (step E Inbound s) = outbound s"
  using assms by (simp add: step_def inbound_step_def handle_command_def)

lemma Send_overflow_step:
  assumes "inbound s = Receiving" and "\<not> panicked s"
    and "stream_Recv (stream (transport s)) = Some (Inr cmd, st')"
    and "client_Handle E (client s) cmd = ((Some rep, None), c')"
    and "\<not> queue_closed s" and "length (queued s) = cap (replies (transport s))"
  shows "inbound (step E Inbound s) =
           Closing \<lparr>Reason = ''error sending message'', Reconnect = True\<rparr>
     \<and> outbound (step E Inbound s) = outbound s"
  using assms
  by (simp add: step_def inbound_step_def handle_command_def send_reply_def Send_def
      chan_trysend_def queue_closed_def queued_def)

text \<open>
  C6. In every session, under every schedule.

  What is returned: when \<open>Communicate\<close> has returned an error, that error is the answer
  of the network to the one write it refused; when it has returned nil, no write was
  refused and the queue is closed and empty; when a write was refused, \<open>Communicate\<close> is
  returning, or has returned, the error of that write; and a result once decided is
  returned at the next turn of the body.

  What is absorbed: an error of \<open>Recv\<close> (\<open>io.EOF\<close> or any other), a disconnect from the
  client's \<open>Handle\<close>, and a \<open>Send\<close> that finds the queue full each leave the goroutine
  with a disconnect to close with, and leave the body of \<open>Communicate\<close> where it was.

  And nil is returned: when the goroutine has its disconnect, this disconnect encodes and
  the network refuses no write, then after any number of turns of the body, the
  goroutine's turn (its \<open>c.Close\<close>), and one turn of the body for each waiting reply and
  two more, \<open>Communicate\<close> has returned nil with every accepted reply written. The same
  holds counted from the turn of the goroutine in which the cause occurs. (What a
  disconnect that does not encode does to the session is C10.)
\<close>

theorem Communicate_returns_write_error_only:
  assumes "s = Communicate E (new_stream msgs) c0 sched"
  shows "(\<forall>e. outbound s = Returned (Some e) \<longrightarrow>
            (\<exists>rep. refused s = [(rep, e)] \<and> network_write E (written s) rep = Some e))
     \<and> (outbound s = Returned None \<longrightarrow> refused s = [] \<and> queue_closed s \<and> queued s = [])
     \<and> (\<forall>rep e. (rep, e) \<in> set (refused s) \<longrightarrow>
            outbound s = Returning (Some e) \<or> outbound s = Returned (Some e))
     \<and> (\<forall>r. outbound s = Returning r \<longrightarrow> outbound (step E Outbound s) = Returned r)
     \<and> (queue_closed s \<and> outbound s = Ranging \<and> (\<forall>ws r. network_write E ws r = None) \<longrightarrow>
          (\<forall>more. length (queued s) + 2 \<le> count_list more Outbound \<longrightarrow>
             outbound (run E more s) = Returned None))
     \<and> (inbound s = Receiving \<and> \<not> panicked s \<longrightarrow>
          (\<forall>err st'. stream_Recv (stream (transport s)) = Some (Inl err, st') \<longrightarrow>
             inbound (step E Inbound s) = Closing (DisconnectNormal E)
           \<and> outbound (step E Inbound s) = outbound s)
        \<and> (\<forall>cmd st' rep d c'. stream_Recv (stream (transport s)) = Some (Inr cmd, st')
             \<and> client_Handle E (client s) cmd = ((rep, Some d), c') \<longrightarrow>
             inbound (step E Inbound s) = Closing d
           \<and> outbound (step E Inbound s) = outbound s)
        \<and> (\<forall>cmd st' rep c'. stream_Recv (stream (transport s)) = Some (Inr cmd, st')
             \<and> client_Handle E (client s) cmd = ((Some rep, None), c')
             \<and> \<not> queue_closed s \<and> length (queued s) = replyBufferSize \<longrightarrow>
             inbound (step E Inbound s) =
               Closing \<lparr>Reason = ''error sending message'', Reconnect = True\<rparr>
           \<and> outbound (step E Inbound s) = outbound s))
     \<and> (\<forall>d j k post. inbound s = Closing d \<and> json_Marshal E d = Inr j
            \<and> (\<forall>ws r. network_write E ws r = None)
            \<and> length (queued s) + 2 \<le> count_list post Outbound \<longrightarrow>
            outbound (run E (replicate k Outbound @ Inbound # post) s) = Returned None
          \<and> written (run E (replicate k Outbound @ Inbound # post) s) = accepted s)
     \<and> (\<forall>d j k post. inbound s = Receiving \<and> \<not> panicked s
            \<and> inbound (step E Inbound s) = Closing d \<and> json_Marshal E d = Inr j
            \<and> (\<forall>ws r. network_write E ws r = None)
            \<and> length (queued (step E Inbound s)) + 2 \<le> count_list post Outbound \<longrightarrow>
            outbound (run E (Inbound # replicate k Outbound @ Inbound # post) s) = Returned None
          \<and> written (run E (Inbound # replicate k Outbound @ Inbound # post) s) =
              accepted (step E Inbound s))"
proof -
  have inv: "session_inv E s"
    using assms by (simp add: inv_Communicate)
  have a: "\<forall>e. outbound s = Returned (Some e) \<longrightarrow>
            (\<exists>rep. refused s = [(rep, e)] \<and> network_write E (written s) rep = Some e)"
    using inv by (auto simp: session_inv_def leaves_def)
  have b: "outbound s = Returned None \<longrightarrow> refused s = [] \<and> queue_closed s \<and> queued s = []"
    using inv by (auto simp: session_inv_def leaves_def)
  have c: "\<forall>rep e. (rep, e) \<in> set (refused s) \<longrightarrow>
            outbound s = Returning (Some e) \<or> outbound s = Returned (Some e)"
    using inv
    by (cases "outbound s") (auto simp: session_inv_def leaves_def split: option.splits)
  have d: "\<forall>r. outbound s = Returning r \<longrightarrow> outbound (step E Outbound s) = Returned r"
  proof (intro allI impI)
    fix r assume r: "outbound s = Returning r"
    have "\<not> panicked s" using inv r by (auto simp: session_inv_def)
    then show "outbound (step E Outbound s) = Returned r"
      using r by (simp add: step_def outbound_step_def client_Close_def
          split: prod.splits outcome.splits)
  qed
  have e: "queue_closed s \<and> outbound s = Ranging \<and> (\<forall>ws r. network_write E ws r = None) \<longrightarrow>
          (\<forall>more. length (queued s) + 2 \<le> count_list more Outbound \<longrightarrow>
             outbound (run E more s) = Returned None)"
  proof (intro allI impI, elim conjE)
    fix more
    assume h: "queue_closed s" "outbound s = Ranging" "\<forall>ws r. network_write E ws r = None"
      "length (queued s) + 2 \<le> count_list more Outbound"
    show "outbound (run E more s) = Returned None"
      using reachable_closed_Ranging[OF inv h(1,2)] drain[OF h(3), of s more] h by simp
  qed
  have cap: "cap (replies (transport s)) = replyBufferSize"
    using inv by (simp add: session_inv_def)
  have f: "inbound s = Receiving \<and> \<not> panicked s \<longrightarrow>
          (\<forall>err st'. stream_Recv (stream (transport s)) = Some (Inl err, st') \<longrightarrow>
             inbound (step E Inbound s) = Closing (DisconnectNormal E)
           \<and> outbound (step E Inbound s) = outbound s)
        \<and> (\<forall>cmd st' rep d c'. stream_Recv (stream (transport s)) = Some (Inr cmd, st')
             \<and> client_Handle E (client s) cmd = ((rep, Some d), c') \<longrightarrow>
             inbound (step E Inbound s) = Closing d
           \<and> outbound (step E Inbound s) = outbound s)
        \<and> (\<forall>cmd st' rep c'. stream_Recv (stream (transport s)) = Some (Inr cmd, st')
             \<and> client_Handle E (client s) cmd = ((Some rep, None), c')
             \<and> \<not> queue_closed s \<and> length (queued s) = replyBufferSize \<longrightarrow>
             inbound (step E Inbound s) =
               Closing \<lparr>Reason = ''error sending message'', Reconnect = True\<rparr>
           \<and> outbound (step E Inbound s) = outbound s)"
    using Recv_error_step[of s _ _ E] Handle_disconnect_step[of s _ _ E]
      Send_overflow_step[of s _ _ E] cap
    by (intro impI conjI allI; elim conjE) simp_all
  have g: "\<forall>d j k post. inbound s = Closing d \<and> json_Marshal E d = Inr j
            \<and> (\<forall>ws r. network_write E ws r = None)
            \<and> length (queued s) + 2 \<le> count_list post Outbound \<longrightarrow>
            outbound (run E (replicate k Outbound @ Inbound # post) s) = Returned None
          \<and> written (run E (replicate k Outbound @ Inbound # post) s) = accepted s"
    using Closing_returns_nil[OF inv] by blast
  have inv1: "session_inv E (step E Inbound s)"
    using inv by (rule inv_step)
  have h: "\<forall>d j k post. inbound s = Receiving \<and> \<not> panicked s
            \<and> inbound (step E Inbound s) = Closing d \<and> json_Marshal E d = Inr j
            \<and> (\<forall>ws r. network_write E ws r = None)
            \<and> length (queued (step E Inbound s)) + 2 \<le> count_list post Outbound \<longrightarrow>
            outbound (run E (Inbound # replicate k Outbound @ Inbound # post) s) = Returned None
          \<and> written (run E (Inbound # replicate k Outbound @ Inbound # post) s) =
              accepted (step E Inbound s)"
    using Closing_returns_nil[OF inv1] by auto
  show ?thesis
    using a b c d e f g h by (intro conjI)
qed


theorem Communicate_returns_write_error_only_witness:
  "outbound (Communicate (test_env (Some (Error ''broken pipe''))) (new_stream [Inr 5, Inl (Error ''reset'')]) ()
      [Inbound, Inbound, Inbound, Outbound, Outbound]) = Returned (Some (Error ''broken pipe''))
   \<and> map snd (refused (Communicate (test_env (Some (Error ''broken pipe'')))
        (new_stream [Inr 5, Inl (Error ''reset'')]) ()
        [Inbound, Inbound, Inbound, Outbound, Outbound])) = [Error ''broken pipe'']
   \<and> outbound (Communicate (test_env None) (new_stream [Inr 5, Inl (Error ''reset'')]) ()
      [Inbound, Inbound, Inbound, Outbound, Outbound, Outbound]) = Returned None
   \<and> queue_closed (Communicate (test_env None) (new_stream [Inr 5, Inl (Error ''reset'')]) ()
      [Inbound, Inbound, Inbound, Outbound, Outbound, Outbound])
   \<and> queued (Communicate (test_env None) (new_stream [Inr 5, Inl (Error ''reset'')]) ()
      [Inbound, Inbound, Inbound, Outbound, Outbound, Outbound]) = []
   \<and> inbound (Communicate (test_env None) (new_stream [Inr 5, Inl (Error ''reset'')]) ()
      [Inbound]) = Receiving
   \<and> inbound (step (test_env None) Inbound
        (Communicate (test_env None) (new_stream [Inr 5, Inl (Error ''reset'')]) () [Inbound])) =
       Closing \<lparr>Reason = ''normal'', Reconnect = True\<rparr>
   \<and> json_Marshal (test_env None :: (nat, nat, unit) env) \<lparr>Reason = ''normal'', Reconnect = True\<rparr> =
       Inr ''normal''
   \<and> outbound (run (test_env None)
        (Inbound # replicate 1 Outbound @ Inbound # [Outbound, Outbound, Inbound, Outbound])
        (Communicate (test_env None) (new_stream [Inr 5, Inl (Error ''reset'')]) () [Inbound])) =
       Returned None
   \<and> written (run (test_env None)
        (Inbound # replicate 1 Outbound @ Inbound # [Outbound, Outbound, Inbound, Outbound])
        (Communicate (test_env None) (new_stream [Inr 5, Inl (Error ''reset'')]) () [Inbound])) =
       [5]"
proof -
  let ?E = "test_env None :: (nat, nat, unit) env"
  let ?f = "Communicate (test_env (Some (Error ''broken pipe''))) (new_stream [Inr 5, Inl (Error ''reset'')]) ()
      [Inbound, Inbound, Inbound, Outbound, Outbound]"
  let ?n = "Communicate ?E (new_stream [Inr 5, Inl (Error ''reset'')]) ()
      [Inbound, Inbound, Inbound, Outbound, Outbound, Outbound]"
  let ?s = "Communicate ?E (new_stream [Inr 5, Inl (Error ''reset'')]) () [Inbound]"
  have q: "outbound ?f = Returned (Some (Error ''broken pipe''))" "outbound ?n = Returned None"
    by (simp_all add: run_defs)
  have r: "inbound ?s = Receiving" "\<not> panicked ?s"
    "inbound (step ?E Inbound ?s) = Closing \<lparr>Reason = ''normal'', Reconnect = True\<rparr>"
    "queued (step ?E Inbound ?s) = [5]" "accepted (step ?E Inbound ?s) = [5]"
    by (simp_all add: run_defs queued_def)
  have m: "json_Marshal ?E \<lparr>Reason = ''normal'', Reconnect = True\<rparr> = Inr ''normal''"
    "\<forall>ws r. network_write ?E ws r = None"
    by (simp_all add: test_env_def)
  have n: "length (queued (step ?E Inbound ?s)) + 2 \<le>
      count_list [Outbound, Outbound, Inbound, Outbound] Outbound"
    by (simp add: r)
  note t1 = Communicate_returns_write_error_only[OF refl, of "test_env (Some (Error ''broken pipe''))"
        "[Inr 5, Inl (Error ''reset'')]" "()" "[Inbound, Inbound, Inbound, Outbound, Outbound]",
        THEN conjunct1, rule_format, OF q(1)]
  note t2 = Communicate_returns_write_error_only[OF refl, of ?E
        "[Inr 5, Inl (Error ''reset'')]" "()" "[Inbound, Inbound, Inbound, Outbound, Outbound, Outbound]",
        THEN conjunct2, THEN conjunct1, rule_format, OF q(2)]
  note t3 = Communicate_returns_write_error_only[OF refl, of ?E
        "[Inr 5, Inl (Error ''reset'')]" "()" "[Inbound]",
        THEN conjunct2, THEN conjunct2, THEN conjunct2, THEN conjunct2, THEN conjunct2,
        THEN conjunct2, THEN conjunct2, rule_format,
        of "\<lparr>Reason = ''normal'', Reconnect = True\<rparr>" "''normal''"
          "[Outbound, Outbound, Inbound, Outbound]" 1]
  have l: "outbound (run ?E
        (Inbound # replicate 1 Outbound @ Inbound # [Outbound, Outbound, Inbound, Outbound]) ?s) =
       Returned None
     \<and> written (run ?E
        (Inbound # replicate 1 Outbound @ Inbound # [Outbound, Outbound, Inbound, Outbound]) ?s) =
       accepted (step ?E Inbound ?s)"
    using r(1,2,3) m n by (intro t3) blast
  have w: "map snd (refused ?f) = [Error ''broken pipe'']"
    using t1 by auto
  show ?thesis
    using q t2 w r(1,3) m(1) l r(5) by (simp del: run.simps replicate.simps)
qed

section \<open>A disconnect that does not encode\<close>

lemma stuck_inbound:
  assumes "closed (transport s)" and "\<not> queue_closed s"
  shows "closed (transport (inbound_step E s)) \<and> \<not> queue_closed (inbound_step E s)
     \<and> outbound (inbound_step E s) = outbound s
     \<and> trailers (stream (transport (inbound_step E s))) = trailers (stream (transport s))"
  using assms
  by (auto simp: inbound_step_def handle_command_def send_reply_def Send_def chan_trysend_def
      client_Close_closed stream_Recv_def queue_closed_def
      split: inbound_pc.splits list.splits sum.splits prod.splits option.splits)

lemma stuck_outbound:
  assumes "closed (transport s)" and "\<not> queue_closed s"
    and "outbound s \<noteq> Returning None" and "outbound s \<noteq> Returned None"
  shows "closed (transport (outbound_step E s)) \<and> \<not> queue_closed (outbound_step E s)
     \<and> outbound (outbound_step E s) \<noteq> Returning None
     \<and> outbound (outbound_step E s) \<noteq> Returned None
     \<and> trailers (stream (transport (outbound_step E s))) = trailers (stream (transport s))"
  using assms
  by (auto simp: outbound_step_def chan_recv_def stream_Send_def client_Close_closed
      queue_closed_def
      split: outbound_pc.splits list.splits prod.splits option.splits)

lemma stuck_run:
  "closed (transport s) \<Longrightarrow> \<not> queue_closed s \<Longrightarrow>
   outbound s \<noteq> Returning None \<Longrightarrow> outbound s \<noteq> Returned None \<Longrightarrow>
   \<not> queue_closed (run E sched s) \<and> outbound (run E sched s) \<noteq> Returned None
   \<and> trailers (stream (transport (run E sched s))) = trailers (stream (transport s))"
proof (induction sched arbitrary: s)
  case Nil
  then show ?case by simp
next
  case (Cons th sched)
  have "closed (transport (step E th s)) \<and> \<not> queue_closed (step E th s)
     \<and> outbound (step E th s) \<noteq> Returning None \<and> outbound (step E th s) \<noteq> Returned None
     \<and> trailers (stream (transport (step E th s))) = trailers (stream (transport s))"
    using Cons.prems stuck_inbound[of s E] stuck_outbound[of s E]
    by (cases th) (simp_all add: step_def)
  then show ?case using Cons.IH[of "step E th s"] by simp
qed

text \<open>
  C10. When \<open>json.Marshal\<close> fails in the first call of \<open>Close\<close>, that call returns the
  error and leaves the transport with the closed flag set, no trailer attached and the
  reply queue as it was. Every later call of \<open>Close\<close>, with any disconnect and any
  encoder, returns nil and changes nothing. In a session with this transport, an open
  queue and the body of \<open>Communicate\<close> in its loop, no schedule closes the queue, attaches
  a trailer or lets \<open>Communicate\<close> return nil.
\<close>

theorem Close_marshal_error_leaves_queue_open:
  assumes "\<not> closed t" and "marshal d = Inl err"
  shows "Close marshal t d = (Returns (Some err), t\<lparr>closed := True\<rparr>)
     \<and> Close_calls marshal' (snd (Close marshal t d)) ds =
         (replicate (length ds) (Returns None), t\<lparr>closed := True\<rparr>)
     \<and> trailers (stream (snd (Close_calls marshal' (snd (Close marshal t d)) ds))) =
         trailers (stream t)
     \<and> replies (snd (Close_calls marshal' (snd (Close marshal t d)) ds)) = replies t
     \<and> (transport s = snd (Close marshal t d) \<and> \<not> chan_closed (replies t)
          \<and> outbound s = Ranging \<longrightarrow>
          \<not> queue_closed (run E sched s) \<and> outbound (run E sched s) \<noteq> Returned None
        \<and> trailers (stream (transport (run E sched s))) = trailers (stream t))"
proof -
  have a: "Close marshal t d = (Returns (Some err), t\<lparr>closed := True\<rparr>)"
    using assms by (rule Close_marshal_error)
  have b: "Close_calls marshal' (snd (Close marshal t d)) ds =
         (replicate (length ds) (Returns None), t\<lparr>closed := True\<rparr>)"
    unfolding a by (simp add: Close_calls_closed)
  have c: "\<not> queue_closed (run E sched s) \<and> outbound (run E sched s) \<noteq> Returned None
        \<and> trailers (stream (transport (run E sched s))) = trailers (stream t)"
    if "transport s = snd (Close marshal t d)" "\<not> chan_closed (replies t)" "outbound s = Ranging"
    using stuck_run[of s E sched] that unfolding a by (simp add: queue_closed_def)
  show ?thesis using a b c by simp
qed

theorem Close_marshal_error_leaves_queue_open_witness:
  "\<not> closed (test_transport 2)
   \<and> Close (\<lambda>d. Inl (Error ''json: unsupported value'')) (test_transport 2)
        \<lparr>Reason = ''stale'', Reconnect = False\<rparr> =
       (Returns (Some (Error ''json: unsupported value'')), (test_transport 2)\<lparr>closed := True\<rparr>)
   \<and> fst (Close_calls (\<lambda>d. Inr (Reason d))
        (snd (Close (\<lambda>d. Inl (Error ''json: unsupported value'')) (test_transport 2)
           \<lparr>Reason = ''stale'', Reconnect = False\<rparr>))
        [\<lparr>Reason = ''normal'', Reconnect = True\<rparr>, \<lparr>Reason = ''shutdown'', Reconnect = True\<rparr>]) =
       [Returns None, Returns None]
   \<and> trailers (stream (snd (Close_calls (\<lambda>d. Inr (Reason d))
        (snd (Close (\<lambda>d. Inl (Error ''json: unsupported value'')) (test_transport 2)
           \<lparr>Reason = ''stale'', Reconnect = False\<rparr>))
        [\<lparr>Reason = ''normal'', Reconnect = True\<rparr>, \<lparr>Reason = ''shutdown'', Reconnect = True\<rparr>]))) = []
   \<and> \<not> queue_closed (run (test_env None) [Outbound, Outbound, Outbound, Inbound, Outbound]
        ((test_session 2 [Inl io_EOF])\<lparr>transport :=
           snd (Close (\<lambda>d. Inl (Error ''json: unsupported value'')) (test_transport 2)
             \<lparr>Reason = ''stale'', Reconnect = False\<rparr>)\<rparr>))
   \<and> outbound (run (test_env None) [Outbound, Outbound, Outbound, Inbound, Outbound]
        ((test_session 2 [Inl io_EOF])\<lparr>transport :=
           snd (Close (\<lambda>d. Inl (Error ''json: unsupported value'')) (test_transport 2)
             \<lparr>Reason = ''stale'', Reconnect = False\<rparr>)\<rparr>)) \<noteq> Returned None"
proof -
  have h: "\<not> closed (test_transport 2)" "\<not> chan_closed (replies (test_transport 2))"
    "trailers (stream (test_transport 2)) = []"
    "outbound (test_session 2 [Inl io_EOF]) = Ranging"
    by (simp_all add: test_transport_def test_session_def Communicate_start_def
        newGRPCTransport_def make_chan_def new_stream_def)
  note t = Close_marshal_error_leaves_queue_open[where t = "test_transport 2"
        and marshal = "\<lambda>d. Inl (Error ''json: unsupported value'')"
        and d = "\<lparr>Reason = ''stale'', Reconnect = False\<rparr>"
        and err = "Error ''json: unsupported value''"
        and marshal' = "\<lambda>d. Inr (Reason d)"
        and ds = "[\<lparr>Reason = ''normal'', Reconnect = True\<rparr>, \<lparr>Reason = ''shutdown'', Reconnect = True\<rparr>]"
        and s = "(test_session 2 [Inl io_EOF])\<lparr>transport :=
           snd (Close (\<lambda>d. Inl (Error ''json: unsupported value'')) (test_transport 2)
             \<lparr>Reason = ''stale'', Reconnect = False\<rparr>)\<rparr>"
        and E = "test_env None" and sched = "[Outbound, Outbound, Outbound, Inbound, Outbound]",
        OF h(1) refl]
  have a: "Close (\<lambda>d. Inl (Error ''json: unsupported value'')) (test_transport 2)
        \<lparr>Reason = ''stale'', Reconnect = False\<rparr> =
       (Returns (Some (Error ''json: unsupported value'')), (test_transport 2)\<lparr>closed := True\<rparr>)"
    using t by (rule conjunct1)
  have b: "fst (Close_calls (\<lambda>d. Inr (Reason d))
        (snd (Close (\<lambda>d. Inl (Error ''json: unsupported value'')) (test_transport 2)
           \<lparr>Reason = ''stale'', Reconnect = False\<rparr>))
        [\<lparr>Reason = ''normal'', Reconnect = True\<rparr>, \<lparr>Reason = ''shutdown'', Reconnect = True\<rparr>]) =
       [Returns None, Returns None]"
    using t[THEN conjunct2, THEN conjunct1] by (simp del: Close_calls.simps)
  have c: "trailers (stream (snd (Close_calls (\<lambda>d. Inr (Reason d))
        (snd (Close (\<lambda>d. Inl (Error ''json: unsupported value'')) (test_transport 2)
           \<lparr>Reason = ''stale'', Reconnect = False\<rparr>))
        [\<lparr>Reason = ''normal'', Reconnect = True\<rparr>, \<lparr>Reason = ''shutdown'', Reconnect = True\<rparr>]))) = []"
    using t[THEN conjunct2, THEN conjunct2, THEN conjunct1] by (simp add: h del: Close_calls.simps)
  have d: "\<not> queue_closed (run (test_env None) [Outbound, Outbound, Outbound, Inbound, Outbound]
        ((test_session 2 [Inl io_EOF])\<lparr>transport :=
           snd (Close (\<lambda>d. Inl (Error ''json: unsupported value'')) (test_transport 2)
             \<lparr>Reason = ''stale'', Reconnect = False\<rparr>)\<rparr>))
   \<and> outbound (run (test_env None) [Outbound, Outbound, Outbound, Inbound, Outbound]
        ((test_session 2 [Inl io_EOF])\<lparr>transport :=
           snd (Close (\<lambda>d. Inl (Error ''json: unsupported value'')) (test_transport 2)
             \<lparr>Reason = ''stale'', Reconnect = False\<rparr>)\<rparr>)) \<noteq> Returned None"
    using t[THEN conjunct2, THEN conjunct2, THEN conjunct2, THEN conjunct2] h
    by (simp del: run.simps)
  show ?thesis using h(1) a b c d by blast
qed

section \<open>Send after Close\<close>

text \<open>
  C9. \<open>Send\<close> neither takes the mutex nor reads the closed flag: once \<open>Close\<close> has
  closed the channel, a \<open>Send\<close> is a send on a closed channel, which panics instead of
  returning an error. A session gets there: the first write of the body of
  \<open>Communicate\<close> is refused, its deferred \<open>c.Close\<close> closes the channel, and the
  goroutine, still running, sends the reply to the next command.
\<close>

theorem Send_after_Close_panics:
  "Send (snd (Close (\<lambda>d. Inr j) (newGRPCTransport st (make_chan replyBufferSize)) d)) reply =
     (Panics ''send on closed channel'',
      snd (Close (\<lambda>d. Inr j) (newGRPCTransport st (make_chan replyBufferSize)) d))
   \<and> panicked (Communicate (test_env (Some (Error ''broken pipe''))) (new_stream [Inr 5, Inr 6]) ()
        [Inbound, Outbound, Outbound, Inbound])"
proof -
  have "panicked (Communicate (test_env (Some (Error ''broken pipe''))) (new_stream [Inr 5, Inr 6]) ()
        [Inbound, Outbound, Outbound, Inbound])"
    by (simp add: run_defs)
  then show ?thesis
    by (simp add: Send_def chan_trysend_def Close_def chan_close_def newGRPCTransport_def
        make_chan_def)
qed

end
